theory Spec2Isabelle
  imports Main "HOL-Library.Sublist" "HOL-Library.AList" "HOL-Library.Multiset"
begin

section \<open>Values of the JavaScript runtime\<close>

text \<open>
  The server of the repository is an Express application (the second document of
  \<^verbatim>\<open>src/public/script.js\<close>; \<^verbatim>\<open>src/server.js\<close> is its older, session-less variant).
  Every handler is embedded as a function from the file system before the request to
  the file system after it and the response.

  Request fields arrive as JavaScript values. Those that JSON or a form can carry
  and that the handlers distinguish are kept: \<open>undefined\<close> (a missing field),
  \<open>null\<close>, booleans, numbers and strings. A number \<open>JNum n\<close> is an integer; it
  stands for a JavaScript number when \<open>n\<close> is one, as every integer of magnitude up
  to \<open>2^53\<close> is, and \<open>String\<close> prints it in decimal when its magnitude is below
  \<open>10^21\<close>. A string is a list of characters with a code below 256. Fractions,
  numbers that print with an exponent, characters beyond code 255, arrays and
  objects are outside this embedding, and so are directories and the limits of
  the operating system on the length of a name: the file system below holds
  regular files, and a write finds the directory it writes to. The theorems say
  so in their hypotheses where it matters.
\<close>

datatype jsval = JUndefined | JNull | JBool bool | JNum int | JStr string

text \<open>\<open>!v\<close> is \<open>\<not> truthy v\<close>.\<close>

fun truthy :: "jsval \<Rightarrow> bool" where
  "truthy JUndefined = False"
| "truthy JNull = False"
| "truthy (JBool b) = b"
| "truthy (JNum n) = (n \<noteq> 0)"
| "truthy (JStr s) = (s \<noteq> [])"

text \<open>Number to string in a radix, as \<open>Number.prototype.toString\<close> prints naturals.\<close>

definition digit_chars :: string where
  "digit_chars = ''0123456789abcdefghijklmnopqrstuvwxyz''"

definition digit_char :: "nat \<Rightarrow> char" where
  "digit_char k = (if k < 36 then digit_chars ! k else CHR ''?'')"

function to_radix :: "nat \<Rightarrow> nat \<Rightarrow> string" where
  "to_radix b n =
     (if n < b \<or> b < 2 then [digit_char n] else to_radix b (n div b) @ [digit_char (n mod b)])"
  by pat_completeness auto
termination
  by (relation "measure (\<lambda>(b, n). n)") auto

definition show_nat :: "nat \<Rightarrow> string" where
  "show_nat n = to_radix 10 n"

definition show_int :: "int \<Rightarrow> string" where
  "show_int i = (if i < 0 then CHR ''-'' # show_nat (nat (- i)) else show_nat (nat i))"

text \<open>String conversion of a template literal, \<open>`${v}`\<close>.\<close>

fun to_string :: "jsval \<Rightarrow> string" where
  "to_string JUndefined = ''undefined''"
| "to_string JNull = ''null''"
| "to_string (JBool b) = (if b then ''true'' else ''false'')"
| "to_string (JNum n) = show_int n"
| "to_string (JStr s) = s"

text \<open>The values that \<open>to_string\<close> prints as the runtime does.\<close>

definition prints_decimal :: "jsval \<Rightarrow> bool" where
  "prints_decimal v = (case v of JNum n \<Rightarrow> \<bar>n\<bar> < 10 ^ 21 | _ \<Rightarrow> True)"

text \<open>
  \<open>parseInt(s)\<close> with no radix: leading white space is skipped, a sign is read, a
  \<open>0x\<close> prefix selects radix 16, and the longest prefix of digits is the value; with
  no digit the result is \<open>NaN\<close>, which is \<open>None\<close> here. \<open>JSON.stringify\<close> writes
  \<open>NaN\<close> as \<open>null\<close>, so \<open>None\<close> also stands for a \<open>null\<close> read back from a manifest.
  The white space that is skipped is that of the language: among the characters
  below 256, the ASCII white space and the no-break space. The value is the exact
  integer that the digits denote; \<open>parseInt\<close> returns the nearest double, which
  is the same number when its magnitude is at most \<open>2^53\<close> (\<open>safe_integer\<close> below
  is the bound \<open>Number.isSafeInteger\<close> tests).
\<close>

definition is_space :: "char \<Rightarrow> bool" where
  "is_space c = (c \<in> set [CHR '' '', CHR 0x09, CHR 0x0A, CHR 0x0B, CHR 0x0C, CHR 0x0D, CHR 0xA0])"

definition digit_val :: "char \<Rightarrow> nat option" where
  "digit_val c =
     (let k = (of_char c :: nat) in
      if 48 \<le> k \<and> k \<le> 57 then Some (k - 48)
      else if 97 \<le> k \<and> k \<le> 122 then Some (k - 87)
      else if 65 \<le> k \<and> k \<le> 90 then Some (k - 55)
      else None)"

definition is_digit :: "nat \<Rightarrow> char \<Rightarrow> bool" where
  "is_digit b c = (case digit_val c of None \<Rightarrow> False | Some k \<Rightarrow> k < b)"

definition digits_value :: "nat \<Rightarrow> string \<Rightarrow> nat" where
  "digits_value b ds = foldl (\<lambda>acc c. acc * b + the (digit_val c)) 0 ds"

definition parse_digits :: "nat \<Rightarrow> string \<Rightarrow> nat option" where
  "parse_digits b s =
     (let ds = takeWhile (is_digit b) s in if ds = [] then None else Some (digits_value b ds))"

definition parse_unsigned :: "string \<Rightarrow> nat option" where
  "parse_unsigned s =
     (if take 2 s = ''0x'' \<or> take 2 s = ''0X'' then parse_digits 16 (drop 2 s)
      else parse_digits 10 s)"

definition parseInt_str :: "string \<Rightarrow> int option" where
  "parseInt_str s0 =
     (let s = dropWhile is_space s0 in
      case s of
        [] \<Rightarrow> None
      | c # cs \<Rightarrow>
          if c = CHR ''-'' then map_option (\<lambda>n. - int n) (parse_unsigned cs)
          else if c = CHR ''+'' then map_option int (parse_unsigned cs)
          else map_option int (parse_unsigned s))"

fun parseInt :: "jsval \<Rightarrow> int option" where
  "parseInt (JNum n) = Some n"
| "parseInt (JStr s) = parseInt_str s"
| "parseInt v = None"

definition safe_integer :: "int \<Rightarrow> bool" where
  "safe_integer n = (\<bar>n\<bar> < 2 ^ 53)"

definition parsed_exactly :: "int option \<Rightarrow> bool" where
  "parsed_exactly x = (case x of None \<Rightarrow> True | Some n \<Rightarrow> safe_integer n)"

section \<open>Paths\<close>

text \<open>
  A path of the file system is the list of its segments from the root. \<open>path.join\<close>
  (POSIX) concatenates its arguments with \<open>/\<close> and normalises the result: empty
  segments and \<open>.\<close> are dropped, \<open>..\<close> removes the segment before it and is
  dropped at the root. Every call of the server starts from \<open>__dirname\<close>, an
  absolute path, so the result is again a list of segments from the root. A
  separator at the end of the last argument, which \<open>path.join\<close> keeps, is not
  recorded in the list: a handler for which it matters looks at the argument
  (\<open>ends_in_sep\<close>), and the theorems about a file that is written take a name or
  an index without separator, which is then the last segment of the path and
  lies in a directory that exists.
\<close>

type_synonym path = "string list"

fun psplit :: "string \<Rightarrow> string list" where
  "psplit [] = [[]]"
| "psplit (c # cs) =
     (if c = CHR ''/'' then [] # psplit cs
      else (case psplit cs of [] \<Rightarrow> [[c]] | s # ss \<Rightarrow> (c # s) # ss))"

text \<open>The normalised segments are kept as a stack, the last segment on top.\<close>

fun normalizeString :: "string list \<Rightarrow> string list \<Rightarrow> string list" where
  "normalizeString stk [] = stk"
| "normalizeString stk (s # ss) =
     (if s = [] \<or> s = ''.'' then normalizeString stk ss
      else if s = ''..'' then normalizeString (case stk of [] \<Rightarrow> [] | _ # r \<Rightarrow> r) ss
      else normalizeString (s # stk) ss)"

definition path_join :: "path \<Rightarrow> string list \<Rightarrow> path" where
  "path_join base args = rev (normalizeString (rev base) (concat (map psplit args)))"

text \<open>
  \<open>path.extname\<close>: the extension of the last segment, from its last dot; empty when
  there is no dot, when the dot is the first character of the segment, and for
  \<open>..\<close>. \<open>toLowerCase\<close> maps the capital letters below code 256 (\<open>A\<close> to \<open>Z\<close>,
  and the accented capitals \<open>0xC0\<close> to \<open>0xDE\<close> but for the sign \<open>0xD7\<close>) to the
  letter 32 codes further.
\<close>

definition basename_seg :: "string \<Rightarrow> string" where
  "basename_seg p = (case filter (\<lambda>s. s \<noteq> []) (psplit p) of [] \<Rightarrow> [] | xs \<Rightarrow> last xs)"

definition last_dot :: "string \<Rightarrow> nat" where
  "last_dot b = length b - 1 - length (takeWhile (\<lambda>c. c \<noteq> CHR ''.'') (rev b))"

definition extname :: "string \<Rightarrow> string" where
  "extname p =
     (let b = basename_seg p in
      if CHR ''.'' \<notin> set b then []
      else if last_dot b = 0 then []
      else if b = ''..'' then []
      else drop (last_dot b) b)"

definition to_lower :: "char \<Rightarrow> char" where
  "to_lower c =
     (let k = (of_char c :: nat) in
      if (65 \<le> k \<and> k \<le> 90) \<or> (192 \<le> k \<and> k \<le> 222 \<and> k \<noteq> 215) then char_of (k + 32) else c)"

definition categoryForExt :: "string \<Rightarrow> string" where
  "categoryForExt ext0 =
     (let ext = map to_lower ext0;
          imageExts = [''.jpg'', ''.jpeg'', ''.png'', ''.gif'', ''.bmp'', ''.webp''];
          videoExts = [''.mp4'', ''.avi'', ''.mov'', ''.mkv'', ''.webm''];
          docExts = [''.pdf'', ''.doc'', ''.docx'', ''.xls'', ''.xlsx'', ''.txt'', ''.ppt'', ''.pptx'']
      in if ext \<in> set imageExts then ''images''
         else if ext \<in> set videoExts then ''videos''
         else if ext \<in> set docExts then ''docs''
         else ''others'')"

definition UPLOAD_ROOT :: "path \<Rightarrow> path" where
  "UPLOAD_ROOT dirname = path_join dirname [''uploads'']"

definition TMP_DIR :: "path \<Rightarrow> path" where
  "TMP_DIR dirname = path_join (UPLOAD_ROOT dirname) [''tmp'']"

definition CATEGORIES :: "string list" where
  "CATEGORIES = [''images'', ''videos'', ''docs'', ''others'']"

section \<open>The file system and the manifests\<close>

text \<open>
  A session's manifest is the JSON document \<open>{fileName, totalChunks, uploadedChunks}\<close>
  in the file \<open>TMP_DIR/<uploadId>.json\<close>. \<open>totalChunks\<close> is \<open>parseInt\<close> of the
  request's field and the elements of \<open>uploadedChunks\<close> are \<open>parseInt\<close> of the chunk
  indices, so each is a number or \<open>null\<close> (\<open>None\<close>).
\<close>

record manifest =
  fileName :: jsval
  totalChunks :: "int option"
  uploadedChunks :: "int option list"

text \<open>
  A file is a sequence of bytes. Two kinds of file are told apart:
  \<open>ManifestJSON m\<close> is a file whose bytes are the JSON text of the manifest \<open>m\<close>,
  which is what \<open>writeFileSync\<close> stores and what a client may send as a chunk,
  and \<open>Blob b\<close> is any other file, of bytes \<open>b\<close>.

  The file system maps the path of every regular file to its content. Directories
  are not modelled: the directories that the server creates when it starts are
  there, a write finds the directory it writes to, and \<open>fs.existsSync\<close> sees files
  only. Paths are POSIX paths.
\<close>

datatype content = Blob string | ManifestJSON manifest

type_synonym fs = "path \<Rightarrow> content option"

text \<open>
  The bytes of a file, as a read stream delivers them: for a manifest, the text
  that \<open>JSON.stringify\<close> has written, in UTF-8.
\<close>

definition escape_char :: "char \<Rightarrow> string" where
  "escape_char c =
     (if c = CHR 0x22 then [CHR 0x5C, CHR 0x22]
      else if c = CHR 0x5C then [CHR 0x5C, CHR 0x5C]
      else if c = CHR 0x08 then [CHR 0x5C, CHR ''b'']
      else if c = CHR 0x0C then [CHR 0x5C, CHR ''f'']
      else if c = CHR 0x0A then [CHR 0x5C, CHR ''n'']
      else if c = CHR 0x0D then [CHR 0x5C, CHR ''r'']
      else if c = CHR 0x09 then [CHR 0x5C, CHR ''t'']
      else if (of_char c :: nat) < 32
        then [CHR 0x5C, CHR ''u'', CHR ''0'', CHR ''0'',
              digit_char ((of_char c :: nat) div 16), digit_char ((of_char c :: nat) mod 16)]
      else [c])"

definition json_string :: "string \<Rightarrow> string" where
  "json_string s = [CHR 0x22] @ concat (map escape_char s) @ [CHR 0x22]"

definition json_number :: "int option \<Rightarrow> string" where
  "json_number x = (case x of None \<Rightarrow> ''null'' | Some n \<Rightarrow> show_int n)"

fun json_value :: "jsval \<Rightarrow> string" where
  "json_value (JStr s) = json_string s"
| "json_value v = to_string v"

fun commas :: "string list \<Rightarrow> string" where
  "commas [] = []"
| "commas [x] = x"
| "commas (x # xs) = x @ '','' @ commas xs"

definition JSON_stringify :: "manifest \<Rightarrow> string" where
  "JSON_stringify m =
     ''{'' @ (if fileName m = JUndefined then []
              else json_string ''fileName'' @ '':'' @ json_value (fileName m) @ '','')
     @ json_string ''totalChunks'' @ '':'' @ json_number (totalChunks m) @ '',''
     @ json_string ''uploadedChunks'' @ '':['' @ commas (map json_number (uploadedChunks m))
     @ '']}''"

definition utf8 :: "string \<Rightarrow> string" where
  "utf8 s =
     concat (map (\<lambda>c. let k = (of_char c :: nat) in
                      if k < 128 then [c] else [char_of (192 + k div 64), char_of (128 + k mod 64)]) s)"

fun file_bytes :: "content \<Rightarrow> string" where
  "file_bytes (Blob b) = b"
| "file_bytes (ManifestJSON m) = utf8 (JSON_stringify m)"

text \<open>
  \<open>readJSON\<close> returns \<open>null\<close> for a file that does not exist, for a file that is
  blank and for a file that \<open>JSON.parse\<close> rejects, and otherwise the value that
  \<open>JSON.parse\<close> yields. Three results are told apart. For a manifest file the
  value is the manifest: \<open>readJSON fs p = Some m\<close>. A blob is not parsed here. When
  the first character after its white space is one that no JSON text starts with,
  or there is none, the blob is blank or rejected and the result is \<open>null\<close>; the
  same holds for the first characters \<open>n\<close> and \<open>f\<close>, which start \<open>null\<close> and
  \<open>false\<close> only. A blob that starts in another way (\<open>json_opens\<close>) is read as a
  value that is not \<open>null\<close> and has no property \<open>uploadedChunks\<close>, as are \<open>{}\<close>,
  \<open>[]\<close>, \<open>5\<close>, \<open>true\<close> and \<open>"x"\<close>: \<open>readJSON_other fs p\<close>. The code reads
  such a blob differently when \<open>JSON.parse\<close> rejects it further on, when it is
  the text of \<open>0\<close> or \<open>""\<close>, and when it has a property \<open>uploadedChunks\<close>; the
  theorems that read a blob name the blob or assume \<open>\<not> json_opens\<close>.
\<close>

definition json_opens :: "string \<Rightarrow> bool" where
  "json_opens b =
     (case dropWhile (\<lambda>c. c \<in> set [CHR '' '', CHR 0x09, CHR 0x0A, CHR 0x0D]) b of
        [] \<Rightarrow> False
      | c # cs \<Rightarrow> c \<in> set ''{[-0123456789t'' \<or> c = CHR 0x22)"

definition readJSON :: "fs \<Rightarrow> path \<Rightarrow> manifest option" where
  "readJSON fs filePath =
     (case fs filePath of
        None \<Rightarrow> None
      | Some (Blob b) \<Rightarrow> None
      | Some (ManifestJSON m) \<Rightarrow> Some m)"

definition readJSON_other :: "fs \<Rightarrow> path \<Rightarrow> bool" where
  "readJSON_other fs filePath =
     (case fs filePath of
        None \<Rightarrow> False
      | Some (Blob b) \<Rightarrow> json_opens b
      | Some (ManifestJSON m) \<Rightarrow> False)"

definition manifestPath :: "path \<Rightarrow> string \<Rightarrow> path" where
  "manifestPath dirname uploadId = path_join (TMP_DIR dirname) [uploadId @ ''.json'']"

definition chunkPath :: "path \<Rightarrow> string \<Rightarrow> string \<Rightarrow> path" where
  "chunkPath dirname uploadId chunkIndex =
     path_join (TMP_DIR dirname) [uploadId @ ''.part'' @ chunkIndex]"

section \<open>Responses\<close>

text \<open>
  An error response is its status code and its message; for the errors that the
  runtime raises (status 500) the message is shortened. \<open>StatusEmpty\<close> is the
  answer \<open>{}\<close> of the status request, whose \<open>uploadedChunks\<close> is \<open>undefined\<close>. The
  answer of \<open>res.download\<close> is the file it sends, or the 404 of the \<open>send\<close>
  module. \<open>PartsReceived\<close> and \<open>Assembled\<close> are the two answers of \<^verbatim>\<open>src/server.js\<close>
  to a chunk that it has stored. The assembly that a
  completion request starts runs after the response: the handler hands it over as
  a job, the destination, the \<open>uploadId\<close> and the number of chunks.
\<close>

datatype response =
    Err nat string
  | InitOk string
  | ChunkOk "int option list"
  | StatusOk "int option list"
  | StatusEmpty
  | CompleteOk string
  | Download path
  | PartsReceived nat
  | Assembled string

record job =
  finalDest :: path
  jobUploadId :: string
  jobTotal :: int

section \<open>POST /upload/init\<close>

text \<open>
  \<open>now\<close> is \<open>Date.now()\<close> and \<open>rnd\<close> is \<open>Math.floor(Math.random() * 10000)\<close>.
\<close>

definition upload_init :: "path \<Rightarrow> nat \<Rightarrow> nat \<Rightarrow> fs \<Rightarrow> jsval \<Rightarrow> jsval \<Rightarrow> fs \<times> response" where
  "upload_init dirname now rnd fs fileName_field totalChunks_field =
     (if \<not> truthy fileName_field \<or> \<not> truthy totalChunks_field
      then (fs, Err 400 ''fileName and totalChunks required'')
      else
        let uploadId = show_nat now @ ''-'' @ show_nat rnd;
            m = \<lparr>fileName = fileName_field,
                 totalChunks = parseInt totalChunks_field,
                 uploadedChunks = []\<rparr>
        in (fs(manifestPath dirname uploadId \<mapsto> ManifestJSON m), InitOk uploadId))"

section \<open>POST /upload/chunk\<close>

text \<open>
  The multer middleware runs before the handler: it stores the file part of the form,
  when there is one, under \<open>TMP_DIR\<close> with the name
  \<open>Date.now() + '-' + Math.random().toString(36).substring(2, 8)\<close> and passes its
  path on as \<open>req.file.path\<close>. The random suffix is a sequence of base-36 digits.
\<close>

definition multer_filename :: "nat \<Rightarrow> nat list \<Rightarrow> string" where
  "multer_filename now rnd = show_nat now @ ''-'' @ map (\<lambda>k. digit_char (k mod 36)) rnd"

definition multer_single :: "path \<Rightarrow> nat \<Rightarrow> nat list \<Rightarrow> fs \<Rightarrow> content option \<Rightarrow> fs \<times> path option" where
  "multer_single dirname now rnd fs part =
     (case part of
        None \<Rightarrow> (fs, None)
      | Some c \<Rightarrow>
          let p = path_join (TMP_DIR dirname) [multer_filename now rnd]
          in (fs(p \<mapsto> c), Some p))"

text \<open>Form fields are strings; a missing field is \<open>None\<close>. \<open>!field\<close>:\<close>

definition missing :: "string option \<Rightarrow> bool" where
  "missing field = (case field of None \<Rightarrow> True | Some s \<Rightarrow> s = [])"

text \<open>
  \<open>Array.prototype.includes\<close> on the list read from the manifest: the index
  \<open>NaN\<close> equals none of its elements, which are numbers and \<open>null\<close>.
\<close>

definition array_includes :: "int option list \<Rightarrow> int option \<Rightarrow> bool" where
  "array_includes xs idx = (case idx of None \<Rightarrow> False | Some i \<Rightarrow> Some i \<in> set xs)"

text \<open>
  \<open>fs.renameSync\<close> throws when the source does not exist. The handler reads the
  manifest, renames the chunk and only then looks for \<open>uploadedChunks\<close>: for a
  value without that property, \<open>includes\<close> is called on \<open>undefined\<close> and the
  request is answered with status 500 after the chunk has been renamed.
\<close>

definition renameSync :: "fs \<Rightarrow> path \<Rightarrow> path \<Rightarrow> fs option" where
  "renameSync fs src dst =
     (case fs src of None \<Rightarrow> None | Some c \<Rightarrow> Some ((fs(src := None))(dst \<mapsto> c)))"

definition upload_chunk_handler ::
  "path \<Rightarrow> fs \<Rightarrow> string option \<Rightarrow> string option \<Rightarrow> path option \<Rightarrow> fs \<times> response" where
  "upload_chunk_handler dirname fs uploadId_field chunkIndex_field req_file =
     (if missing uploadId_field \<or> missing chunkIndex_field
      then (fs, Err 400 ''uploadId and chunkIndex required'')
      else
        let uploadId = the uploadId_field; chunkIndex = the chunkIndex_field in
        if readJSON fs (manifestPath dirname uploadId) = None \<and>
           \<not> readJSON_other fs (manifestPath dirname uploadId)
        then (fs, Err 400 ''Invalid or missing manifest file'')
        else
          (case req_file of
             None \<Rightarrow> (fs, Err 400 ''Chunk file missing'')
           | Some tmp \<Rightarrow>
               (case renameSync fs tmp (chunkPath dirname uploadId chunkIndex) of
                  None \<Rightarrow> (fs, Err 500 ''ENOENT'')
                | Some fs1 \<Rightarrow>
                    (case readJSON fs (manifestPath dirname uploadId) of
                       None \<Rightarrow> (fs1, Err 500 ''Cannot read properties of undefined'')
                     | Some m \<Rightarrow>
                         let idx = parseInt_str chunkIndex;
                             m1 = (if \<not> array_includes (uploadedChunks m) idx
                                   then m\<lparr>uploadedChunks := uploadedChunks m @ [idx]\<rparr>
                                   else m)
                         in (fs1(manifestPath dirname uploadId \<mapsto> ManifestJSON m1),
                             ChunkOk (uploadedChunks m1))))))"

definition upload_chunk ::
  "path \<Rightarrow> nat \<Rightarrow> nat list \<Rightarrow> fs \<Rightarrow> string option \<Rightarrow> string option \<Rightarrow> content option \<Rightarrow> fs \<times> response" where
  "upload_chunk dirname now rnd fs uploadId_field chunkIndex_field part =
     (let (fs1, req_file) = multer_single dirname now rnd fs part
      in upload_chunk_handler dirname fs1 uploadId_field chunkIndex_field req_file)"

section \<open>GET /upload/status\<close>

definition upload_status :: "path \<Rightarrow> fs \<Rightarrow> string option \<Rightarrow> response" where
  "upload_status dirname fs uploadId_field =
     (if missing uploadId_field then Err 400 ''uploadId required''
      else case readJSON fs (manifestPath dirname (the uploadId_field)) of
             None \<Rightarrow>
               if readJSON_other fs (manifestPath dirname (the uploadId_field)) then StatusEmpty
               else Err 404 ''Upload not found''
           | Some m \<Rightarrow> StatusOk (uploadedChunks m))"

section \<open>POST /upload/complete\<close>

text \<open>The loop that verifies that every chunk file exists, from index \<open>i\<close> on.\<close>

function verify_chunks :: "path \<Rightarrow> fs \<Rightarrow> string \<Rightarrow> int \<Rightarrow> int \<Rightarrow> int option" where
  "verify_chunks dirname fs uploadId i n =
     (if i \<le> n
      then (if fs (chunkPath dirname uploadId (show_int i)) = None then Some i
            else verify_chunks dirname fs uploadId (i + 1) n)
      else None)"
  by pat_completeness auto
termination
  by (relation "measure (\<lambda>(dirname, fs, uploadId, i, n). nat (n + 1 - i))") auto

text \<open>
  The handler validates, creates the write stream and the asynchronous assembly, and
  then, in the same synchronous run, unlinks the manifest and answers. Neither the
  write stream nor a read stream has touched a file at that point: the streams open
  their files and move bytes in later turns of the event loop. The third component
  of the result is the assembly left to run. Three calls throw, and the handler
  answers with status 500 and leaves the manifest: \<open>length\<close> of \<open>undefined\<close> for a
  value without \<open>uploadedChunks\<close>, \<open>path.extname\<close> for a \<open>fileName\<close> that is not
  a string, and \<open>fs.createWriteStream\<close> for a destination with a NUL character.
\<close>

definition has_nul :: "path \<Rightarrow> bool" where
  "has_nul p = (\<exists>s\<in>set p. CHR 0x00 \<in> set s)"

definition upload_complete :: "path \<Rightarrow> nat \<Rightarrow> fs \<Rightarrow> jsval \<Rightarrow> fs \<times> response \<times> job option" where
  "upload_complete dirname now fs uploadId_field =
     (if \<not> truthy uploadId_field then (fs, Err 400 ''uploadId required'', None)
      else
        let uploadId = to_string uploadId_field in
        case readJSON fs (manifestPath dirname uploadId) of
          None \<Rightarrow>
            if readJSON_other fs (manifestPath dirname uploadId)
            then (fs, Err 500 ''Cannot read properties of undefined'', None)
            else (fs, Err 400 ''Invalid uploadId or manifest missing'', None)
        | Some m \<Rightarrow>
            if Some (int (length (uploadedChunks m))) \<noteq> totalChunks m
            then (fs, Err 400 ''Not all chunks uploaded yet'', None)
            else
              (case verify_chunks dirname fs uploadId 1 (the (totalChunks m)) of
                 Some i \<Rightarrow> (fs, Err 400 (''Missing chunk file: part'' @ show_int i), None)
               | None \<Rightarrow>
                   (case fileName m of
                      JStr name \<Rightarrow>
                        let finalName = show_nat now @ ''-'' @ name;
                            ext = extname name;
                            cat = categoryForExt ext;
                            dest = path_join (UPLOAD_ROOT dirname) [cat, finalName]
                        in if has_nul dest
                           then (fs, Err 500 ''The argument path must be without null bytes'', None)
                           else (fs(manifestPath dirname uploadId := None),
                                 CompleteOk (''/uploads/'' @ cat @ ''/'' @ finalName),
                                 Some \<lparr>finalDest = dest, jobUploadId = uploadId,
                                       jobTotal = the (totalChunks m)\<rparr>)
                    | _ \<Rightarrow> (fs, Err 500 ''The path argument must be of type string'', None))))"

text \<open>
  The assembly. The write stream opens its destination with flag \<open>w\<close>, which creates
  or truncates it. Each turn of the loop pipes one chunk file into the stream and
  unlinks the chunk when its read stream has ended; a chunk that cannot be read
  rejects the promise, and the loop stops there (\<open>Inl\<close>, with the index). Bytes
  written after the destination's name has been unlinked reach no named file.
\<close>

definition stream_write :: "fs \<Rightarrow> path \<Rightarrow> string \<Rightarrow> fs" where
  "stream_write fs dest bytes =
     (case fs dest of None \<Rightarrow> fs | Some c \<Rightarrow> fs(dest \<mapsto> Blob (file_bytes c @ bytes)))"

definition pipe_chunk :: "fs \<Rightarrow> path \<Rightarrow> path \<Rightarrow> fs option" where
  "pipe_chunk fs dest chunk =
     (case fs chunk of
        None \<Rightarrow> None
      | Some c \<Rightarrow> Some ((stream_write fs dest (file_bytes c))(chunk := None)))"

function assembly_loop :: "path \<Rightarrow> fs \<Rightarrow> job \<Rightarrow> int \<Rightarrow> (int \<times> fs) + fs" where
  "assembly_loop dirname fs j i =
     (if i \<le> jobTotal j
      then (case pipe_chunk fs (finalDest j) (chunkPath dirname (jobUploadId j) (show_int i)) of
              None \<Rightarrow> Inl (i, fs)
            | Some fs1 \<Rightarrow> assembly_loop dirname fs1 j (i + 1))
      else Inr fs)"
  by pat_completeness auto
termination
  by (relation "measure (\<lambda>(dirname, fs, j, i). nat (jobTotal j + 1 - i))") auto

definition run_assembly :: "path \<Rightarrow> fs \<Rightarrow> job \<Rightarrow> (int \<times> fs) + fs" where
  "run_assembly dirname fs j = assembly_loop dirname (fs(finalDest j \<mapsto> Blob [])) j 1"

text \<open>The file system that the assembly leaves, whether it has stopped or ended.\<close>

fun assembly_files :: "(int \<times> fs) + fs \<Rightarrow> fs" where
  "assembly_files (Inl (i, fs)) = fs"
| "assembly_files (Inr fs) = fs"

section \<open>POST /upload-chunk of the session-less server\<close>

text \<open>
  \<^verbatim>\<open>src/server.js\<close> has no sessions: it names a chunk file after the \<open>fileName\<close>
  field of the form itself, and the request that brings the number of these files
  to \<open>totalChunks\<close> assembles them before it answers.
\<close>

definition chunkDestPath :: "path \<Rightarrow> string \<Rightarrow> string \<Rightarrow> path" where
  "chunkDestPath dirname fileName_field chunkIndex =
     path_join (TMP_DIR dirname) [fileName_field @ ''.part'' @ chunkIndex]"

text \<open>
  The handler lists the temporary directory, so its file system is kept as the list
  of the regular files with their contents, in the order in which
  \<open>fs.readdirSync\<close> lists them. \<open>AList.update\<close> writes a file and \<open>AList.delete\<close>
  unlinks one.
\<close>

type_synonym disk = "(path \<times> content) list"

definition readdirSync :: "disk \<Rightarrow> path \<Rightarrow> string list" where
  "readdirSync disk dir = map (\<lambda>(p, c). last p) (filter (\<lambda>(p, c). p \<noteq> [] \<and> butlast p = dir) disk)"

text \<open>
  Multer names the stored file part \<open>Date.now() + '-' + file.originalname\<close>, the
  name that the client has given to the part.
\<close>

definition multer_single_disk ::
  "path \<Rightarrow> nat \<Rightarrow> disk \<Rightarrow> (string \<times> content) option \<Rightarrow> disk \<times> path option" where
  "multer_single_disk dirname now disk part =
     (case part of
        None \<Rightarrow> (disk, None)
      | Some (originalname, c) \<Rightarrow>
          let p = path_join (TMP_DIR dirname) [show_nat now @ ''-'' @ originalname]
          in (AList.update p c disk, Some p))"

text \<open>\<open>parseInt(s, 10)\<close>: no prefix selects another radix.\<close>

definition parseInt10 :: "string \<Rightarrow> int option" where
  "parseInt10 s0 =
     (let s = dropWhile is_space s0 in
      case s of
        [] \<Rightarrow> None
      | c # cs \<Rightarrow>
          if c = CHR ''-'' then map_option (\<lambda>n. - int n) (parse_digits 10 cs)
          else if c = CHR ''+'' then map_option int (parse_digits 10 cs)
          else map_option int (parse_digits 10 s))"

text \<open>\<open>String.prototype.split\<close> with a separator that is not empty.\<close>

function split_on :: "string \<Rightarrow> string \<Rightarrow> string list" where
  "split_on sep [] = [[]]"
| "split_on sep (c # cs) =
     (if sep \<noteq> [] \<and> prefix sep (c # cs) then [] # split_on sep (drop (length sep) (c # cs))
      else (case split_on sep cs of [] \<Rightarrow> [[c]] | x # xs \<Rightarrow> (c # x) # xs))"
  by pat_completeness auto
termination
  by (relation "measure (\<lambda>(sep, s). length s)") auto

text \<open>
  The parts are sorted with the comparison
  \<open>parseInt(a.split('.part')[1]) - parseInt(b.split('.part')[1])\<close>, which is
  \<open>NaN\<close> (\<open>None\<close>) when one of the two is. \<open>Array.prototype.sort\<close> is stable and
  takes \<open>NaN\<close> for 0. When the indices of all parts are numbers the result is the
  same for every sorting algorithm; the insertion sort below stands for that of the
  engine.
\<close>

definition part_index :: "string \<Rightarrow> int option" where
  "part_index a = (case split_on ''.part'' a of x # y # ys \<Rightarrow> parseInt_str y | _ \<Rightarrow> None)"

definition compare_parts :: "string \<Rightarrow> string \<Rightarrow> int option" where
  "compare_parts a b =
     (case (part_index a, part_index b) of (Some x, Some y) \<Rightarrow> Some (x - y) | _ \<Rightarrow> None)"

fun insort_parts :: "string \<Rightarrow> string list \<Rightarrow> string list" where
  "insort_parts a [] = [a]"
| "insort_parts a (b # bs) =
     (if (case compare_parts a b of Some v \<Rightarrow> 0 < v | None \<Rightarrow> False) then b # insort_parts a bs
      else a # b # bs)"

definition sort_parts :: "string list \<Rightarrow> string list" where
  "sort_parts parts = foldr insort_parts parts []"

text \<open>
  The loop over the sorted parts: each one is read, handed to the write stream and
  unlinked. The result is the file system, the bytes handed to the stream so far,
  and whether every part could be read.
\<close>

fun write_parts :: "path \<Rightarrow> string list \<Rightarrow> disk \<times> string \<Rightarrow> disk \<times> string \<times> bool" where
  "write_parts tmp [] (disk, data) = (disk, data, True)"
| "write_parts tmp (p # ps) (disk, data) =
     (case map_of disk (path_join tmp [p]) of
        None \<Rightarrow> (disk, data, False)
      | Some c \<Rightarrow> write_parts tmp ps (AList.delete (path_join tmp [p]) disk, data @ file_bytes c))"

text \<open>
  A write stream buffers what is written to it until the runtime has opened its
  file, which it does in another turn of the event loop or on another thread. The
  handler does not wait for that. \<open>opened\<close> tells whether the file has been opened,
  and so created, when the handler comes to rename it; if not, \<open>fs.renameSync\<close>
  finds no file to rename, unless an older one is there, and throws. The third
  component of the result is the stream that is left with its buffer: the file
  that it writes to, when it is or has been opened, and the bytes.
\<close>

record write_stream =
  streamFile :: path
  streamData :: string

definition upload_chunk_sessionless ::
  "bool \<Rightarrow> path \<Rightarrow> nat \<Rightarrow> disk \<Rightarrow> string option \<Rightarrow> string option \<Rightarrow> string option \<Rightarrow> path option
     \<Rightarrow> disk \<times> response \<times> write_stream option" where
  "upload_chunk_sessionless opened dirname now disk fileName_field totalChunks_field
       chunkIndex_field req_file =
     (if missing fileName_field then (disk, Err 400 ''fileName required'', None)
      else
        case req_file of
          None \<Rightarrow> (disk, Err 400 ''Chunk file missing'', None)
        | Some tmp \<Rightarrow>
            let fileName = the fileName_field;
                chunkIndex = (case chunkIndex_field of None \<Rightarrow> ''undefined'' | Some ci \<Rightarrow> ci)
            in case map_of disk tmp of
                 None \<Rightarrow> (disk, Err 500 ''ENOENT'', None)
               | Some c \<Rightarrow>
                   let disk1 = AList.update (chunkDestPath dirname fileName chunkIndex) c
                                 (AList.delete tmp disk);
                       expected = (if missing totalChunks_field then Some 1
                                   else parseInt10 (the totalChunks_field));
                       parts = filter (prefix (fileName @ ''.part''))
                                 (readdirSync disk1 (TMP_DIR dirname))
                   in if Some (int (length parts)) \<noteq> expected
                      then (disk1, PartsReceived (length parts), None)
                      else
                        let assembledPath = path_join (TMP_DIR dirname) [fileName];
                            disk2 = (if opened then AList.update assembledPath (Blob []) disk1
                                     else disk1);
                            (disk3, data, ok) =
                               write_parts (TMP_DIR dirname) (sort_parts parts) (disk2, []);
                            cat = categoryForExt (extname fileName);
                            finalName = show_nat now @ ''-'' @ fileName;
                            finalDest = path_join (UPLOAD_ROOT dirname) [cat, finalName]
                        in if \<not> ok
                           then (disk3, Err 500 ''ENOENT'',
                                 Some \<lparr>streamFile = assembledPath, streamData = data\<rparr>)
                           else
                             (case map_of disk3 assembledPath of
                                None \<Rightarrow>
                                  (disk3, Err 500 ''ENOENT'',
                                   Some \<lparr>streamFile = assembledPath, streamData = data\<rparr>)
                              | Some a \<Rightarrow>
                                  (AList.update finalDest a (AList.delete assembledPath disk3),
                                   Assembled (''/uploads/'' @ cat @ ''/'' @ finalName),
                                   Some \<lparr>streamFile = (if opened then finalDest else assembledPath),
                                         streamData = data\<rparr>)))"

text \<open>The stream writes its buffer when its file is open.\<close>

definition stream_flush :: "disk \<Rightarrow> write_stream option \<Rightarrow> disk" where
  "stream_flush disk w =
     (case w of
        None \<Rightarrow> disk
      | Some st \<Rightarrow> AList.update (streamFile st) (Blob (streamData st)) disk)"

section \<open>GET /download\<close>

text \<open>
  \<open>path.join\<close> keeps the separator at the end of its last argument, and a path
  that ends with a separator names no regular file: \<open>fs.existsSync\<close> is false for
  it. \<open>res.download\<close> hands the path to the \<open>send\<close> module, which answers 404 for a
  dot file, a file whose name starts with a dot (from version 1 of the module on,
  also for a file in a directory whose name does). The module also refuses a path
  in which \<open>..\<close> stands next to a backslash; the theorem on this handler
  leaves paths with a backslash out.
\<close>

definition ends_in_sep :: "string \<Rightarrow> bool" where
  "ends_in_sep s = (s \<noteq> [] \<and> last s = CHR ''/'')"

definition dot_segment :: "string \<Rightarrow> bool" where
  "dot_segment s = (take 1 s = ''.'')"

definition containsDotFile :: "path \<Rightarrow> bool" where
  "containsDotFile parts = (parts \<noteq> [] \<and> length (last parts) > 1 \<and> hd (last parts) = CHR ''.'')"

definition download :: "path \<Rightarrow> fs \<Rightarrow> string option \<Rightarrow> response" where
  "download dirname fs p =
     (if missing p then Err 400 ''path required''
      else
        let safePath = path_join dirname [the p] in
        if ends_in_sep (the p) \<or> fs safePath = None then Err 404 ''not found''
        else if containsDotFile safePath then Err 404 ''Not Found''
        else Download safePath)"

section \<open>Auxiliary notions\<close>

text \<open>A segment that normalisation keeps.\<close>

definition plain :: "string \<Rightarrow> bool" where
  "plain s = (s \<noteq> [] \<and> s \<noteq> ''.'' \<and> s \<noteq> ''..'')"

text \<open>
  The directory in which the files of a session lie: \<open>TMP_DIR\<close>, moved by the
  separators and \<open>..\<close> segments of the \<open>uploadId\<close> itself.
\<close>

definition session_dir :: "path \<Rightarrow> string \<Rightarrow> path" where
  "session_dir dirname uploadId =
     rev (normalizeString (rev (TMP_DIR dirname)) (butlast (psplit uploadId)))"

text \<open>The path of the temporary file that multer writes.\<close>

definition multer_path :: "path \<Rightarrow> nat \<Rightarrow> nat list \<Rightarrow> path" where
  "multer_path dirname now rnd = path_join (TMP_DIR dirname) [multer_filename now rnd]"

text \<open>The manifest after the chunk handler has recorded an index.\<close>

definition register_index :: "manifest \<Rightarrow> string \<Rightarrow> manifest" where
  "register_index m chunkIndex =
     (if \<not> array_includes (uploadedChunks m) (parseInt_str chunkIndex)
      then m\<lparr>uploadedChunks := uploadedChunks m @ [parseInt_str chunkIndex]\<rparr>
      else m)"

text \<open>The destination that the completion request computes for a file name.\<close>

definition destination :: "path \<Rightarrow> nat \<Rightarrow> string \<Rightarrow> path" where
  "destination dirname now name =
     path_join (UPLOAD_ROOT dirname) [categoryForExt (extname name), show_nat now @ ''-'' @ name]"

text \<open>The name under which \<^verbatim>\<open>src/server.js\<close> stores the chunk \<open>k\<close> of the file \<open>f\<close>.\<close>

definition part_name :: "string \<Rightarrow> int \<Rightarrow> string" where
  "part_name f k = f @ ''.part'' @ show_int k"

text \<open>
  A client that registers the chunks of a session one request after the other, in
  the order of the list \<open>order\<close>: the index \<open>i\<close> is sent in decimal with the
  payload \<open>b i\<close>, and multer names its temporary file from the clock value \<open>tm i\<close>
  and the random digits \<open>rs i\<close>.
\<close>

fun register_all ::
  "path \<Rightarrow> string \<Rightarrow> (int \<Rightarrow> content) \<Rightarrow> (int \<Rightarrow> nat) \<Rightarrow> (int \<Rightarrow> nat list) \<Rightarrow> int list \<Rightarrow> fs \<Rightarrow> fs" where
  "register_all dirname uploadId b tm rs [] fs = fs"
| "register_all dirname uploadId b tm rs (i # order) fs =
     register_all dirname uploadId b tm rs order
       (fst (upload_chunk dirname (tm i) (rs i) fs (Some uploadId) (Some (show_int i)) (Some (b i))))"

text \<open>
  Two chunk requests in flight at once. Node runs a handler to its end before it
  turns to another event, and the chunk handler has no asynchronous step, so two
  requests interleave as whole steps: for each request, multer storing the file
  part, and later the handler. The state of the run is the file system, the
  \<open>req.file\<close> that multer has left for each request, and the responses sent.
\<close>

datatype client = First | Second



record run_state =
  files :: fs
  req_file :: "client \<Rightarrow> path option"
  sent :: "client \<Rightarrow> response option"



section \<open>A sample deployment and sample sessions\<close>

text \<open>
  The server runs in \<open>/srv/app\<close>. A client creates a session for \<open>report.pdf\<close> in
  two chunks at time 5 (the random number is 7), sends chunk 2 and then chunk 1.
\<close>

definition ex_dirname :: path where
  "ex_dirname = [''srv'', ''app'']"

definition ex_created :: fs where
  "ex_created = fst (upload_init ex_dirname 5 7 Map.empty (JStr ''report.pdf'') (JNum 2))"

definition ex_one_chunk :: fs where
  "ex_one_chunk =
     fst (upload_chunk ex_dirname 6 [1, 2] ex_created (Some ''5-7'') (Some ''2'') (Some (Blob ''CD'')))"

definition ex_uploaded :: fs where
  "ex_uploaded =
     fst (upload_chunk ex_dirname 7 [3, 4] ex_one_chunk (Some ''5-7'') (Some ''1'') (Some (Blob ''AB'')))"

text \<open>The same session after the file of chunk 2 has been deleted from outside.\<close>

definition ex_chunk_lost :: fs where
  "ex_chunk_lost = ex_uploaded(chunkPath ex_dirname ''5-7'' ''2'' := None)"

text \<open>The completion request for the sample session, at time 9, and its parts.\<close>

definition ex_completion :: "fs \<times> response \<times> job option" where
  "ex_completion = upload_complete ex_dirname 9 ex_uploaded (JStr ''5-7'')"

definition ex_job :: job where
  "ex_job = \<lparr>finalDest = [''srv'', ''app'', ''uploads'', ''docs'', ''9-report.pdf''],
             jobUploadId = ''5-7'', jobTotal = 2\<rparr>"

text \<open>
  A session whose \<open>fileName\<close> climbs out of the category directory, with its single
  chunk uploaded.
\<close>

definition ex_climbing :: fs where
  "ex_climbing =
     fst (upload_chunk ex_dirname 6 [1]
            (fst (upload_init ex_dirname 5 7 Map.empty (JStr ''x/../../../server.js'') (JNum 1)))
            (Some ''5-7'') (Some ''1'') (Some (Blob ''pwned'')))"

definition ex_climbing_job :: job where
  "ex_climbing_job = \<lparr>finalDest = [''srv'', ''app'', ''server.js''], jobUploadId = ''5-7'', jobTotal = 1\<rparr>"

text \<open>The request path that leads from \<open>dirname\<close> to a given file.\<close>

fun unsplit :: "string list \<Rightarrow> string" where
  "unsplit [] = []"
| "unsplit [s] = s"
| "unsplit (s # ss) = s @ ''/'' @ unsplit ss"

definition traversal_to :: "path \<Rightarrow> path \<Rightarrow> string" where
  "traversal_to dirname target = concat (replicate (length dirname) ''../'') @ unsplit target"

text \<open>The payloads of the sample session, by index.\<close>

definition ex_payload :: "int \<Rightarrow> content" where
  "ex_payload k = (if k = 1 then Blob ''AB'' else Blob ''CD'')"

text \<open>
  A session of one chunk, created at time 5 with random number 7, whose \<open>fileName\<close>
  leads to the file of its own chunk; the chunk is then registered.
\<close>

definition ex_colliding_created :: fs where
  "ex_colliding_created =
     fst (upload_init ex_dirname 5 7 Map.empty (JStr ''x/../../tmp/5-7.part1'') (JNum 1))"

definition ex_colliding_uploaded :: fs where
  "ex_colliding_uploaded =
     register_all ex_dirname ''5-7'' ex_payload (\<lambda>k. 6) (\<lambda>k. [1]) [1] ex_colliding_created"

definition ex_colliding_job :: job where
  "ex_colliding_job =
     \<lparr>finalDest = [''srv'', ''app'', ''uploads'', ''tmp'', ''5-7.part1''],
      jobUploadId = ''5-7'', jobTotal = 1\<rparr>"

text \<open>The sample session with both chunks uploaded, and a second session, \<open>5-8\<close>.\<close>

definition ex_two_sessions :: fs where
  "ex_two_sessions = fst (upload_init ex_dirname 5 8 ex_uploaded (JStr ''b.txt'') (JNum 1))"

text \<open>A file system in which the manifest file of the session \<open>9\<close> holds the text \<open>{}\<close>.\<close>

definition ex_foreign :: fs where
  "ex_foreign = Map.empty(manifestPath ex_dirname ''9'' \<mapsto> Blob ''{}'')"

text \<open>
  For \<^verbatim>\<open>src/server.js\<close>: the file \<open>a.txt\<close> is sent in three chunks, \<open>AB\<close>, \<open>CD\<close>
  and \<open>EF\<close>, of which chunk 3 and chunk 1 have been stored, in this order, and
  chunk 2 has just been stored by multer.
\<close>

definition ex_disk :: disk where
  "ex_disk =
     [([''srv'', ''app'', ''uploads'', ''tmp'', ''a.txt.part3''], Blob ''EF''),
      ([''srv'', ''app'', ''uploads'', ''tmp'', ''a.txt.part1''], Blob ''AB''),
      ([''srv'', ''app'', ''uploads'', ''tmp'', ''8-blob''], Blob ''CD'')]"

definition ex_block :: "int \<Rightarrow> content" where
  "ex_block k = (if k = 1 then Blob ''AB'' else if k = 2 then Blob ''CD'' else Blob ''EF'')"

definition ex_parts :: disk where
  "ex_parts =
     [([''srv'', ''app'', ''uploads'', ''tmp'', ''a.txt.part3''], Blob ''EF''),
      ([''srv'', ''app'', ''uploads'', ''tmp'', ''a.txt.part1''], Blob ''AB''),
      ([''srv'', ''app'', ''uploads'', ''tmp'', ''a.txt.part2''], Blob ''CD'')]"

definition ex_last_chunk :: "bool \<Rightarrow> disk \<times> response \<times> write_stream option" where
  "ex_last_chunk opened =
     upload_chunk_sessionless opened ex_dirname 9 ex_disk (Some ''a.txt'') (Some ''3'') (Some ''2'')
       (Some [''srv'', ''app'', ''uploads'', ''tmp'', ''8-blob''])"


declare to_radix.simps [simp del]
declare verify_chunks.simps [simp del]
declare assembly_loop.simps [simp del]
declare split_on.simps [simp del]

section \<open>Printing and reading integers\<close>

lemma digit_char_decimal: "k < 10 \<Longrightarrow> digit_char k \<in> set ''0123456789''"
proof -
  assume "k < 10"
  then have "k \<in> {0, 1, 2, 3, 4, 5, 6, 7, 8, 9}" by auto
  then show ?thesis
    by (auto simp: digit_char_def digit_chars_def)
qed

lemma digit_val_digit_char: "k < 10 \<Longrightarrow> digit_val (digit_char k) = Some k"
proof -
  assume "k < 10"
  then have "k \<in> {0, 1, 2, 3, 4, 5, 6, 7, 8, 9}" by auto
  then show ?thesis
    by (auto simp: digit_char_def digit_chars_def digit_val_def)
qed

lemma show_nat_digits: "set (show_nat n) \<subseteq> set ''0123456789''"
  unfolding show_nat_def
proof (induction "10::nat" n rule: to_radix.induct)
  case (1 n)
  show ?case
  proof (cases "n < 10")
    case True
    then show ?thesis using digit_char_decimal [of n] by (subst to_radix.simps) simp
  next
    case False
    then have "set (to_radix 10 (n div 10)) \<subseteq> set ''0123456789''" using 1 by simp
    moreover have "digit_char (n mod 10) \<in> set ''0123456789''"
      by (rule digit_char_decimal) simp
    ultimately show ?thesis using False by (subst to_radix.simps) simp
  qed
qed

lemma show_nat_nonempty: "show_nat n \<noteq> []"
  unfolding show_nat_def by (subst to_radix.simps) simp

lemma digits_value_snoc: "digits_value b (ds @ [c]) = digits_value b ds * b + the (digit_val c)"
  by (simp add: digits_value_def)

lemma digits_value_show_nat: "digits_value 10 (show_nat n) = n"
  unfolding show_nat_def
proof (induction "10::nat" n rule: to_radix.induct)
  case (1 n)
  show ?case
  proof (cases "n < 10")
    case True
    then show ?thesis
      by (subst to_radix.simps) (simp add: digits_value_def digit_val_digit_char)
  next
    case False
    then have "digits_value 10 (to_radix 10 (n div 10)) = n div 10" using 1 by simp
    then show ?thesis using False
      by (subst to_radix.simps) (simp add: digits_value_snoc digit_val_digit_char)
  qed
qed

lemma is_digit_decimal: "c \<in> set ''0123456789'' \<Longrightarrow> is_digit 10 c"
  by (auto simp: is_digit_def digit_val_def digit_chars_def)

lemma parse_digits_show_nat: "parse_digits 10 (show_nat n) = Some n"
proof -
  have "\<forall>c \<in> set (show_nat n). is_digit 10 c"
    using show_nat_digits is_digit_decimal by blast
  then have tw: "takeWhile (is_digit 10) (show_nat n) = show_nat n"
    by (simp add: takeWhile_eq_all_conv)
  show ?thesis
    unfolding parse_digits_def Let_def tw
    by (simp add: show_nat_nonempty digits_value_show_nat)
qed

lemma show_nat_no_x: "CHR ''x'' \<notin> set (show_nat n)" "CHR ''X'' \<notin> set (show_nat n)"
  "CHR ''/'' \<notin> set (show_nat n)" "CHR ''.'' \<notin> set (show_nat n)" "CHR ''-'' \<notin> set (show_nat n)"
  using show_nat_digits [of n] by auto

lemma parse_unsigned_show_nat: "parse_unsigned (show_nat n) = Some n"
proof -
  have "take 2 (show_nat n) \<noteq> ''0x''" "take 2 (show_nat n) \<noteq> ''0X''"
    using show_nat_no_x(1,2) [of n] by (metis in_set_takeD list.set_intros(1,2))+
  then show ?thesis by (simp add: parse_unsigned_def parse_digits_show_nat)
qed

lemma hd_show_nat_not_space: "dropWhile is_space (show_nat n) = show_nat n"
proof -
  obtain c cs where eq: "show_nat n = c # cs" using show_nat_nonempty [of n] by (cases "show_nat n") auto
  then have "c \<in> set ''0123456789''" using show_nat_digits [of n] by auto
  then have "\<not> is_space c" by (auto simp: is_space_def)
  then show ?thesis using eq by simp
qed

lemma parseInt_show_int: "parseInt_str (show_int i) = Some i"
proof (cases "i < 0")
  case True
  then show ?thesis
    by (simp add: parseInt_str_def show_int_def is_space_def parse_unsigned_show_nat)
next
  case False
  obtain c cs where eq: "show_nat (nat i) = c # cs" using show_nat_nonempty [of "nat i"] by (cases "show_nat (nat i)") auto
  then have "c \<in> set ''0123456789''" using show_nat_digits [of "nat i"] by auto
  then have c: "c \<noteq> CHR ''-''" "c \<noteq> CHR ''+''" by auto
  have "parse_unsigned (c # cs) = Some (nat i)" using parse_unsigned_show_nat [of "nat i"] eq by simp
  then show ?thesis using False c eq hd_show_nat_not_space [of "nat i"]
    by (simp add: parseInt_str_def show_int_def)
qed

lemma show_int_inj: "show_int i = show_int j \<Longrightarrow> i = j"
  using parseInt_show_int by (metis option.inject)

lemma show_int_no_slash: "CHR ''/'' \<notin> set (show_int i)"
  using show_nat_no_x(3) by (simp add: show_int_def)

lemma show_int_nonempty: "show_int i \<noteq> []"
  by (simp add: show_int_def show_nat_nonempty)

section \<open>Paths of the session files\<close>

lemma psplit_nonempty: "psplit s \<noteq> []"
  by (induction s) (auto split: list.splits)

lemma psplit_noslash: "CHR ''/'' \<notin> set s \<Longrightarrow> psplit s = [s]"
  by (induction s) auto

lemma psplit_append: "CHR ''/'' \<notin> set t \<Longrightarrow> psplit (s @ t) = butlast (psplit s) @ [last (psplit s) @ t]"
proof (induction s)
  case Nil
  then show ?case by (simp add: psplit_noslash)
next
  case (Cons c s)
  then show ?case
    by (cases "psplit s"; cases "psplit (s @ t)") (auto simp: psplit_nonempty split: if_splits)
qed

lemma normalizeString_append:
  "normalizeString stk (xs @ ys) = normalizeString (normalizeString stk xs) ys"
  by (induction xs arbitrary: stk) auto

lemma normalizeString_snoc:
  "plain s \<Longrightarrow> normalizeString stk (xs @ [s]) = s # normalizeString stk xs"
  by (simp add: normalizeString_append plain_def)

lemma path_join_suffix:
  assumes "CHR ''/'' \<notin> set t" "plain (last (psplit u) @ t)"
  shows "path_join (TMP_DIR d) [u @ t] = session_dir d u @ [last (psplit u) @ t]"
  using assms by (simp add: path_join_def session_dir_def psplit_append normalizeString_snoc)

lemma plain_suffix: "CHR ''j'' \<in> set t \<or> CHR ''p'' \<in> set t \<or> CHR ''-'' \<in> set t \<Longrightarrow> plain (s @ t)"
  by (auto simp: plain_def append_eq_Cons_conv Cons_eq_append_conv)

lemma manifestPath_eq:
  "manifestPath d u = session_dir d u @ [last (psplit u) @ ''.json'']"
  unfolding manifestPath_def by (rule path_join_suffix) (simp_all add: plain_suffix)

lemma chunkPath_eq:
  "CHR ''/'' \<notin> set ci \<Longrightarrow> chunkPath d u ci = session_dir d u @ [last (psplit u) @ ''.part'' @ ci]"
  unfolding chunkPath_def by (rule path_join_suffix) (simp_all add: plain_suffix)

lemma chunkPath_neq_manifestPath:
  "CHR ''/'' \<notin> set ci \<Longrightarrow> chunkPath d u ci \<noteq> manifestPath d u"
  by (simp add: chunkPath_eq manifestPath_eq)

lemma chunkPath_inj:
  "CHR ''/'' \<notin> set ci \<Longrightarrow> CHR ''/'' \<notin> set cj \<Longrightarrow> chunkPath d u ci = chunkPath d u cj \<longleftrightarrow> ci = cj"
  by (auto simp add: chunkPath_eq)

lemma UPLOAD_ROOT_eq: "UPLOAD_ROOT d = d @ [''uploads'']"
  by (simp add: UPLOAD_ROOT_def path_join_def)

lemma TMP_DIR_eq: "TMP_DIR d = d @ [''uploads'', ''tmp'']"
  by (simp add: TMP_DIR_def UPLOAD_ROOT_eq path_join_def)

lemma multer_filename_chars:
  "CHR ''/'' \<notin> set (multer_filename now rnd)" "CHR ''.'' \<notin> set (multer_filename now rnd)"
proof -
  have "\<And>k. digit_char (k mod 36) \<in> set digit_chars"
  proof -
    fix k :: nat
    have "k mod 36 < length digit_chars" by (simp add: digit_chars_def)
    then have "digit_chars ! (k mod 36) \<in> set digit_chars" by (rule nth_mem)
    then show "digit_char (k mod 36) \<in> set digit_chars" by (simp add: digit_char_def)
  qed
  then have "set (map (\<lambda>k. digit_char (k mod 36)) rnd) \<subseteq> set digit_chars" by auto
  then have "CHR ''/'' \<notin> set (map (\<lambda>k. digit_char (k mod 36)) rnd)" "CHR ''.'' \<notin> set (map (\<lambda>k. digit_char (k mod 36)) rnd)"
    by (auto simp: digit_chars_def)
  then show "CHR ''/'' \<notin> set (multer_filename now rnd)" "CHR ''.'' \<notin> set (multer_filename now rnd)"
    using show_nat_no_x(3,4) [of now] by (auto simp: multer_filename_def)
qed

lemma multer_path_eq:
  "path_join (TMP_DIR d) [multer_filename now rnd] = TMP_DIR d @ [multer_filename now rnd]"
proof -
  have "plain (multer_filename now rnd)"
    unfolding multer_filename_def by (rule plain_suffix) simp
  then show ?thesis
    by (simp add: path_join_def psplit_noslash multer_filename_chars plain_def)
qed

lemma multer_path_neq_manifestPath:
  "path_join (TMP_DIR d) [multer_filename now rnd] \<noteq> manifestPath d u"
proof
  assume "path_join (TMP_DIR d) [multer_filename now rnd] = manifestPath d u"
  then have "multer_filename now rnd = last (psplit u) @ ''.json''"
    by (simp add: multer_path_eq manifestPath_eq)
  then have "CHR ''.'' \<in> set (multer_filename now rnd)" by simp
  then show False using multer_filename_chars by simp
qed

lemma multer_path_neq_chunkPath:
  "CHR ''/'' \<notin> set ci \<Longrightarrow> path_join (TMP_DIR d) [multer_filename now rnd] \<noteq> chunkPath d u ci"
proof
  assume ci: "CHR ''/'' \<notin> set ci" and "path_join (TMP_DIR d) [multer_filename now rnd] = chunkPath d u ci"
  then have "multer_filename now rnd = last (psplit u) @ ''.part'' @ ci"
    by (simp add: multer_path_eq chunkPath_eq)
  then have "CHR ''.'' \<in> set (multer_filename now rnd)" by simp
  then show False using multer_filename_chars by simp
qed

section \<open>The verification loop of the completion request\<close>

lemma verify_chunks_step:
  "i \<le> n \<Longrightarrow> fs (chunkPath d u (show_int i)) \<noteq> None \<Longrightarrow>
     verify_chunks d fs u i n = verify_chunks d fs u (i + 1) n"
  by (subst verify_chunks.simps) auto

lemma verify_chunks_stop:
  "i \<le> n \<Longrightarrow> fs (chunkPath d u (show_int i)) = None \<Longrightarrow> verify_chunks d fs u i n = Some i"
  by (subst verify_chunks.simps) simp

lemma verify_chunks_done: "\<not> i \<le> n \<Longrightarrow> verify_chunks d fs u i n = None"
  by (subst verify_chunks.simps) simp

lemma verify_chunks_None:
  "verify_chunks d fs u i n = None \<longleftrightarrow> (\<forall>k. i \<le> k \<and> k \<le> n \<longrightarrow> fs (chunkPath d u (show_int k)) \<noteq> None)"
proof (induction d fs u i n rule: verify_chunks.induct)
  case (1 d fs u i n)
  show ?case
  proof (cases "i \<le> n")
    case False
    then show ?thesis by (auto simp: verify_chunks_done)
  next
    case True
    show ?thesis
    proof (cases "fs (chunkPath d u (show_int i)) = None")
      case True
      with \<open>i \<le> n\<close> show ?thesis by (auto simp: verify_chunks_stop)
    next
      case False
      have "(\<forall>k. i \<le> k \<and> k \<le> n \<longrightarrow> fs (chunkPath d u (show_int k)) \<noteq> None) \<longleftrightarrow>
            (\<forall>k. i + 1 \<le> k \<and> k \<le> n \<longrightarrow> fs (chunkPath d u (show_int k)) \<noteq> None)"
        using False by (metis add1_zle_eq order_le_less)
      moreover have "verify_chunks d fs u i n = verify_chunks d fs u (i + 1) n"
        using True False by (rule verify_chunks_step)
      ultimately show ?thesis using "1.IH" [OF True False] by simp
    qed
  qed
qed

lemma verify_chunks_Some:
  "verify_chunks d fs u i n = Some k \<Longrightarrow>
     i \<le> k \<and> k \<le> n \<and> fs (chunkPath d u (show_int k)) = None \<and>
     (\<forall>j. i \<le> j \<and> j < k \<longrightarrow> fs (chunkPath d u (show_int j)) \<noteq> None)"
proof (induction d fs u i n rule: verify_chunks.induct)
  case (1 d fs u i n)
  have le: "i \<le> n"
    using "1.prems" verify_chunks_done [of i n d fs u] by (cases "i \<le> n") auto
  show ?case
  proof (cases "fs (chunkPath d u (show_int i)) = None")
    case True
    with le "1.prems" have "k = i" by (simp add: verify_chunks_stop)
    with True le show ?thesis by auto
  next
    case False
    with le "1.prems" have "verify_chunks d fs u (i + 1) n = Some k"
      by (simp add: verify_chunks_step)
    with "1.IH" [OF le False] have IH: "i + 1 \<le> k \<and> k \<le> n \<and> fs (chunkPath d u (show_int k)) = None \<and>
     (\<forall>j. i + 1 \<le> j \<and> j < k \<longrightarrow> fs (chunkPath d u (show_int j)) \<noteq> None)" by simp
    have "\<forall>j. i \<le> j \<and> j < k \<longrightarrow> fs (chunkPath d u (show_int j)) \<noteq> None"
    proof (intro allI impI)
      fix j assume "i \<le> j \<and> j < k"
      then have "j = i \<or> (i + 1 \<le> j \<and> j < k)" by auto
      then show "fs (chunkPath d u (show_int j)) \<noteq> None" using False IH by auto
    qed
    with IH show ?thesis by simp
  qed
qed

section \<open>Validation of a completion request\<close>

text \<open>
  Claim C3. For every \<open>uploadId\<close> that the request carries, the completion request
  answers 400 \<open>Invalid uploadId or manifest missing\<close> when the session has no
  manifest: its manifest file does not exist, is blank, or starts with a character
  that no JSON text starts with. It answers 400 \<open>Not all chunks uploaded yet\<close>
  exactly when the manifest exists and the length of \<open>uploadedChunks\<close> differs
  from \<open>totalChunks\<close>; when the two agree but the chunk file of some index in
  \<open>1..totalChunks\<close> is absent, it answers 400 \<open>Missing chunk file: part<k>\<close> for
  an absent index \<open>k\<close>; and it starts the assembly only when the counts agree and
  every chunk file exists. The failing answers leave the file system as it was.
  The \<open>uploadId\<close> is any value of the request body that is not falsy and that a
  template literal prints as \<open>to_string\<close> does.
\<close>

theorem complete_validation:
  assumes "truthy uploadId" "prints_decimal uploadId"
  shows "(readJSON fs (manifestPath d (to_string uploadId)) = None \<and>
          \<not> readJSON_other fs (manifestPath d (to_string uploadId)) \<longrightarrow>
            upload_complete d now fs uploadId =
              (fs, Err 400 ''Invalid uploadId or manifest missing'', None))
       \<and> (\<forall>m. readJSON fs (manifestPath d (to_string uploadId)) = Some m \<longrightarrow>
             ((fst (snd (upload_complete d now fs uploadId)) = Err 400 ''Not all chunks uploaded yet'')
                = (Some (int (length (uploadedChunks m))) \<noteq> totalChunks m))
           \<and> (Some (int (length (uploadedChunks m))) = totalChunks m \<and>
                (\<exists>i. 1 \<le> i \<and> i \<le> int (length (uploadedChunks m)) \<and>
                     fs (chunkPath d (to_string uploadId) (show_int i)) = None) \<longrightarrow>
                (\<exists>k. 1 \<le> k \<and> k \<le> int (length (uploadedChunks m)) \<and>
                     fs (chunkPath d (to_string uploadId) (show_int k)) = None \<and>
                     upload_complete d now fs uploadId =
                       (fs, Err 400 (''Missing chunk file: part'' @ show_int k), None))))
       \<and> (\<forall>fs' r j. upload_complete d now fs uploadId = (fs', r, Some j) \<longrightarrow>
             (\<exists>m. readJSON fs (manifestPath d (to_string uploadId)) = Some m \<and>
                  Some (int (length (uploadedChunks m))) = totalChunks m \<and>
                  (\<forall>i. 1 \<le> i \<and> i \<le> int (length (uploadedChunks m)) \<longrightarrow>
                       fs (chunkPath d (to_string uploadId) (show_int i)) \<noteq> None)))"
proof (intro conjI allI impI)
  assume "readJSON fs (manifestPath d (to_string uploadId)) = None \<and>
          \<not> readJSON_other fs (manifestPath d (to_string uploadId))"
  with assms show "upload_complete d now fs uploadId =
              (fs, Err 400 ''Invalid uploadId or manifest missing'', None)"
    by (simp add: upload_complete_def)
next
  fix m assume m: "readJSON fs (manifestPath d (to_string uploadId)) = Some m"
  show "(fst (snd (upload_complete d now fs uploadId)) = Err 400 ''Not all chunks uploaded yet'')
                = (Some (int (length (uploadedChunks m))) \<noteq> totalChunks m)"
    using assms m by (auto simp: upload_complete_def Let_def split: option.splits jsval.splits)
next
  fix m assume m: "readJSON fs (manifestPath d (to_string uploadId)) = Some m"
    and h: "Some (int (length (uploadedChunks m))) = totalChunks m \<and>
                (\<exists>i. 1 \<le> i \<and> i \<le> int (length (uploadedChunks m)) \<and>
                     fs (chunkPath d (to_string uploadId) (show_int i)) = None)"
  let ?n = "int (length (uploadedChunks m))"
  from h have "verify_chunks d fs (to_string uploadId) 1 ?n \<noteq> None"
    by (auto simp: verify_chunks_None)
  then obtain k where k: "verify_chunks d fs (to_string uploadId) 1 ?n = Some k" by auto
  from verify_chunks_Some [OF k]
  have "1 \<le> k \<and> k \<le> ?n \<and> fs (chunkPath d (to_string uploadId) (show_int k)) = None" by simp
  moreover have "upload_complete d now fs uploadId =
                       (fs, Err 400 (''Missing chunk file: part'' @ show_int k), None)"
    using assms m h k by (auto simp: upload_complete_def Let_def dest: sym)
  ultimately show "\<exists>k. 1 \<le> k \<and> k \<le> ?n \<and>
                     fs (chunkPath d (to_string uploadId) (show_int k)) = None \<and>
                     upload_complete d now fs uploadId =
                       (fs, Err 400 (''Missing chunk file: part'' @ show_int k), None)"
    by blast
next
  fix fs' r j assume c: "upload_complete d now fs uploadId = (fs', r, Some j)"
  then obtain m where m: "readJSON fs (manifestPath d (to_string uploadId)) = Some m"
    using assms by (auto simp: upload_complete_def Let_def split: option.splits if_splits)
  from c m assms have len: "Some (int (length (uploadedChunks m))) = totalChunks m"
    by (auto simp: upload_complete_def Let_def split: option.splits if_splits)
  from c m assms len have "verify_chunks d fs (to_string uploadId) 1 (int (length (uploadedChunks m))) = None"
    by (auto simp: upload_complete_def Let_def split: option.splits if_splits dest: sym)
  then have "\<forall>i. 1 \<le> i \<and> i \<le> int (length (uploadedChunks m)) \<longrightarrow>
                       fs (chunkPath d (to_string uploadId) (show_int i)) \<noteq> None"
    by (simp add: verify_chunks_None)
  with m len show "\<exists>m. readJSON fs (manifestPath d (to_string uploadId)) = Some m \<and>
                  Some (int (length (uploadedChunks m))) = totalChunks m \<and>
                  (\<forall>i. 1 \<le> i \<and> i \<le> int (length (uploadedChunks m)) \<longrightarrow>
                       fs (chunkPath d (to_string uploadId) (show_int i)) \<noteq> None)"
    by blast
qed

theorem complete_validation_witness:
  "truthy (JStr ''5-7'') \<and> prints_decimal (JStr ''5-7'') \<and>
   (\<exists>k. 1 \<le> k \<and> k \<le> 2 \<and> ex_chunk_lost (chunkPath ex_dirname ''5-7'' (show_int k)) = None \<and>
        upload_complete ex_dirname 9 ex_chunk_lost (JStr ''5-7'') =
          (ex_chunk_lost, Err 400 (''Missing chunk file: part'' @ show_int k), None))"
proof -
  have t: "truthy (JStr ''5-7'')" by simp
  have pd: "prints_decimal (JStr ''5-7'')" by (simp add: prints_decimal_def)
  have m: "readJSON ex_chunk_lost (manifestPath ex_dirname (to_string (JStr ''5-7''))) =
             Some \<lparr>fileName = JStr ''report.pdf'', totalChunks = Some 2,
                   uploadedChunks = [Some 2, Some 1]\<rparr>"
    by code_simp
  have c: "ex_chunk_lost (chunkPath ex_dirname (to_string (JStr ''5-7'')) (show_int 2)) = None"
    by code_simp
  from complete_validation [OF t pd, of ex_chunk_lost ex_dirname 9] m
  have "Some (int (length [Some (2::int), Some 1])) = Some 2 \<and>
                (\<exists>i. 1 \<le> i \<and> i \<le> int (length [Some (2::int), Some 1]) \<and>
                     ex_chunk_lost (chunkPath ex_dirname (to_string (JStr ''5-7'')) (show_int i)) = None) \<longrightarrow>
                (\<exists>k. 1 \<le> k \<and> k \<le> int (length [Some (2::int), Some 1]) \<and>
                     ex_chunk_lost (chunkPath ex_dirname (to_string (JStr ''5-7'')) (show_int k)) = None \<and>
                     upload_complete ex_dirname 9 ex_chunk_lost (JStr ''5-7'') =
                       (ex_chunk_lost, Err 400 (''Missing chunk file: part'' @ show_int k), None))"
    by simp
  moreover have "\<exists>i. 1 \<le> i \<and> i \<le> int (length [Some (2::int), Some 1]) \<and>
                     ex_chunk_lost (chunkPath ex_dirname (to_string (JStr ''5-7'')) (show_int i)) = None"
    using c by (intro exI [of _ 2]) simp
  ultimately show ?thesis using t pd by simp
qed

section \<open>Creation of a session\<close>

lemma show_nat_inj: "show_nat a = show_nat b \<Longrightarrow> a = b"
  by (metis digits_value_show_nat)

lemma uploadId_inj:
  assumes "show_nat a @ ''-'' @ show_nat b = show_nat a' @ ''-'' @ show_nat b'"
  shows "a = a' \<and> b = b'"
proof -
  have tw: "takeWhile (\<lambda>c. c \<noteq> CHR ''-'') (show_nat x @ CHR ''-'' # show_nat y) = show_nat x" for x y
    using show_nat_no_x(5) [of x] by (subst takeWhile_append2) auto
  have dw: "dropWhile (\<lambda>c. c \<noteq> CHR ''-'') (show_nat x @ CHR ''-'' # show_nat y) = CHR ''-'' # show_nat y" for x y
    using show_nat_no_x(5) [of x] by (subst dropWhile_append2) auto
  from assms have eq: "show_nat a @ CHR ''-'' # show_nat b = show_nat a' @ CHR ''-'' # show_nat b'" by simp
  have "show_nat a = show_nat a'" using arg_cong [OF eq, of "takeWhile (\<lambda>c. c \<noteq> CHR ''-'')"] by (simp only: tw)
  moreover have "show_nat b = show_nat b'" using arg_cong [OF eq, of "dropWhile (\<lambda>c. c \<noteq> CHR ''-'')"] by (simp only: dw list.inject)
  ultimately show ?thesis using show_nat_inj by blast
qed

lemma init_id_inj:
  assumes "truthy f \<and> truthy t"
    and eq: "snd (upload_init d now' rnd' fs' f' t') = snd (upload_init d now rnd fs f t)"
  shows "now' = now \<and> rnd' = rnd"
proof -
  from assms(1) have r: "snd (upload_init d now rnd fs f t) = InitOk (show_nat now @ ''-'' @ show_nat rnd)"
    by (simp add: upload_init_def Let_def)
  with eq have "show_nat now' @ ''-'' @ show_nat rnd' = show_nat now @ ''-'' @ show_nat rnd"
    by (auto simp: upload_init_def Let_def split: if_splits)
  then show ?thesis by (rule uploadId_inj)
qed

text \<open>
  Claim C7, amended. The request is answered 400 whenever \<open>fileName\<close> or
  \<open>totalChunks\<close> is missing or falsy (the empty string, \<open>0\<close>, \<open>null\<close>,
  \<open>false\<close>). Otherwise the session gets the identifier
  \<open><Date.now()>-<random number>\<close>, a manifest with the given \<open>fileName\<close> and with no
  uploaded chunk is stored under it, no other file changes, and the identifier is
  returned; it differs from the identifier of every request with another clock
  value or random number. The \<open>totalChunks\<close> of the manifest is
  \<open>parseInt(totalChunks)\<close>: the integer that the leading digits of the field denote
  when that integer is a safe integer, and \<open>null\<close> when the field has no leading
  digits. In particular a non-empty name and a positive safe integer, sent as a
  number or in decimal, create a session with that number of chunks. There is no
  check that \<open>totalChunks\<close> is a positive integer.
\<close>

theorem init_behaviour:
  "(\<not> truthy f \<or> \<not> truthy t \<longrightarrow>
      upload_init d now rnd fs f t = (fs, Err 400 ''fileName and totalChunks required''))
   \<and> (truthy f \<and> truthy t \<longrightarrow>
        snd (upload_init d now rnd fs f t) = InitOk (show_nat now @ ''-'' @ show_nat rnd) \<and>
        (\<exists>tc. readJSON (fst (upload_init d now rnd fs f t))
                 (manifestPath d (show_nat now @ ''-'' @ show_nat rnd)) =
               Some \<lparr>fileName = f, totalChunks = tc, uploadedChunks = []\<rparr> \<and>
             (parsed_exactly (parseInt t) \<longrightarrow> tc = parseInt t)) \<and>
        (\<forall>p. p \<noteq> manifestPath d (show_nat now @ ''-'' @ show_nat rnd) \<longrightarrow>
             fst (upload_init d now rnd fs f t) p = fs p) \<and>
        (\<forall>now' rnd' fs' f' t'.
             snd (upload_init d now' rnd' fs' f' t') = snd (upload_init d now rnd fs f t) \<longrightarrow>
             now' = now \<and> rnd' = rnd))
   \<and> (\<forall>n s. 0 < n \<and> safe_integer n \<and> s \<noteq> [] \<longrightarrow>
         readJSON (fst (upload_init d now rnd fs (JStr s) (JNum n)))
            (manifestPath d (show_nat now @ ''-'' @ show_nat rnd)) =
          Some \<lparr>fileName = JStr s, totalChunks = Some n, uploadedChunks = []\<rparr> \<and>
         readJSON (fst (upload_init d now rnd fs (JStr s) (JStr (show_int n))))
            (manifestPath d (show_nat now @ ''-'' @ show_nat rnd)) =
          Some \<lparr>fileName = JStr s, totalChunks = Some n, uploadedChunks = []\<rparr>)"
proof -
  have A: "\<not> truthy f \<or> \<not> truthy t \<longrightarrow>
      upload_init d now rnd fs f t = (fs, Err 400 ''fileName and totalChunks required'')"
    by (auto simp: upload_init_def)
  have B: "truthy f \<and> truthy t \<longrightarrow>
        snd (upload_init d now rnd fs f t) = InitOk (show_nat now @ ''-'' @ show_nat rnd) \<and>
        (\<exists>tc. readJSON (fst (upload_init d now rnd fs f t))
                 (manifestPath d (show_nat now @ ''-'' @ show_nat rnd)) =
               Some \<lparr>fileName = f, totalChunks = tc, uploadedChunks = []\<rparr> \<and>
             (parsed_exactly (parseInt t) \<longrightarrow> tc = parseInt t)) \<and>
        (\<forall>p. p \<noteq> manifestPath d (show_nat now @ ''-'' @ show_nat rnd) \<longrightarrow>
             fst (upload_init d now rnd fs f t) p = fs p)"
    by (auto simp: upload_init_def Let_def readJSON_def)
  have C: "truthy f \<and> truthy t \<longrightarrow> (\<forall>now' rnd' fs' f' t'.
             snd (upload_init d now' rnd' fs' f' t') = snd (upload_init d now rnd fs f t) \<longrightarrow>
             now' = now \<and> rnd' = rnd)"
    using init_id_inj by blast
  have D: "\<forall>n s. 0 < n \<and> safe_integer n \<and> s \<noteq> [] \<longrightarrow>
         readJSON (fst (upload_init d now rnd fs (JStr s) (JNum n)))
            (manifestPath d (show_nat now @ ''-'' @ show_nat rnd)) =
          Some \<lparr>fileName = JStr s, totalChunks = Some n, uploadedChunks = []\<rparr> \<and>
         readJSON (fst (upload_init d now rnd fs (JStr s) (JStr (show_int n))))
            (manifestPath d (show_nat now @ ''-'' @ show_nat rnd)) =
          Some \<lparr>fileName = JStr s, totalChunks = Some n, uploadedChunks = []\<rparr>"
    using show_int_nonempty by (auto simp: upload_init_def Let_def readJSON_def parseInt_show_int)
  from A B C D show ?thesis by blast
qed

theorem init_behaviour_witness:
  "truthy (JStr ''report.pdf'') \<and> truthy (JNum 2) \<and> parsed_exactly (parseInt (JNum 2)) \<and>
   0 < (2::int) \<and> safe_integer 2 \<and> ''report.pdf'' \<noteq> [] \<and>
   snd (upload_init ex_dirname 5 7 Map.empty (JStr ''report.pdf'') (JNum 2)) = InitOk ''5-7'' \<and>
   readJSON (fst (upload_init ex_dirname 5 7 Map.empty (JStr ''report.pdf'') (JNum 2)))
       (manifestPath ex_dirname ''5-7'') =
     Some \<lparr>fileName = JStr ''report.pdf'', totalChunks = Some 2, uploadedChunks = []\<rparr>"
proof -
  have t: "truthy (JStr ''report.pdf'') \<and> truthy (JNum 2)" by simp
  have e: "parsed_exactly (parseInt (JNum 2))" by (simp add: parsed_exactly_def safe_integer_def)
  have n: "0 < (2::int) \<and> safe_integer 2 \<and> ''report.pdf'' \<noteq> []" by (simp add: safe_integer_def)
  have u: "show_nat 5 @ ''-'' @ show_nat 7 = ''5-7''" by code_simp
  from init_behaviour [of "JStr ''report.pdf''" "JNum 2" ex_dirname 5 7 Map.empty] t n
  have "snd (upload_init ex_dirname 5 7 Map.empty (JStr ''report.pdf'') (JNum 2)) =
          InitOk (show_nat 5 @ ''-'' @ show_nat 7) \<and>
        readJSON (fst (upload_init ex_dirname 5 7 Map.empty (JStr ''report.pdf'') (JNum 2)))
            (manifestPath ex_dirname (show_nat 5 @ ''-'' @ show_nat 7)) =
          Some \<lparr>fileName = JStr ''report.pdf'', totalChunks = Some 2, uploadedChunks = []\<rparr>"
    by blast
  then show ?thesis using t e n unfolding u by simp
qed

text \<open>
  Claim C7 fails as stated. A request with \<open>totalChunks = -3\<close> is not rejected: the
  session is created with \<open>totalChunks = -3\<close>. And the identifier is not fresh when
  the clock and the random number repeat: a second request at time 5 with random
  number 7 is answered with the identifier \<open>5-7\<close> of the sample session, whose
  manifest, with two chunks uploaded, is replaced by an empty one.
\<close>

theorem init_no_positivity_check:
  "snd (upload_init ex_dirname 5 7 Map.empty (JStr ''report.pdf'') (JNum (- 3))) = InitOk ''5-7'' \<and>
   readJSON (fst (upload_init ex_dirname 5 7 Map.empty (JStr ''report.pdf'') (JNum (- 3))))
       (manifestPath ex_dirname ''5-7'') =
     Some \<lparr>fileName = JStr ''report.pdf'', totalChunks = Some (- 3), uploadedChunks = []\<rparr> \<and>
   readJSON ex_uploaded (manifestPath ex_dirname ''5-7'') =
     Some \<lparr>fileName = JStr ''report.pdf'', totalChunks = Some 2, uploadedChunks = [Some 2, Some 1]\<rparr> \<and>
   snd (upload_init ex_dirname 5 7 ex_uploaded (JStr ''other.txt'') (JStr ''1'')) = InitOk ''5-7'' \<and>
   readJSON (fst (upload_init ex_dirname 5 7 ex_uploaded (JStr ''other.txt'') (JStr ''1'')))
       (manifestPath ex_dirname ''5-7'') =
     Some \<lparr>fileName = JStr ''other.txt'', totalChunks = Some 1, uploadedChunks = []\<rparr>"
  by code_simp

section \<open>Registration of a chunk\<close>

lemma readJSON_upd_other: "p \<noteq> q \<Longrightarrow> readJSON (fs(p := x)) q = readJSON fs q"
  by (simp add: readJSON_def)

lemma readJSON_upd_same: "readJSON (fs(p \<mapsto> ManifestJSON m)) p = Some m"
  by (simp add: readJSON_def)

lemma multer_path_neq:
  "multer_path d now rnd \<noteq> manifestPath d u"
  "CHR ''/'' \<notin> set ci \<Longrightarrow> multer_path d now rnd \<noteq> chunkPath d u ci"
  unfolding multer_path_def
  by (rule multer_path_neq_manifestPath, rule multer_path_neq_chunkPath)

lemma multer_single_Some:
  "multer_single d now rnd fs (Some c) = (fs(multer_path d now rnd \<mapsto> c), Some (multer_path d now rnd))"
  by (simp add: multer_single_def multer_path_def Let_def)

lemma multer_single_None: "multer_single d now rnd fs None = (fs, None)"
  by (simp add: multer_single_def)

lemma readJSON_multer:
  "readJSON (fst (multer_single d now rnd fs part)) (manifestPath d u) = readJSON fs (manifestPath d u)"
  by (cases part) (simp_all add: multer_single_Some multer_single_None readJSON_upd_other multer_path_neq)

lemma readJSON_other_upd_other: "p \<noteq> q \<Longrightarrow> readJSON_other (fs(p := x)) q = readJSON_other fs q"
  by (simp add: readJSON_other_def)

lemma readJSON_other_multer:
  "readJSON_other (fst (multer_single d now rnd fs part)) (manifestPath d u) =
     readJSON_other fs (manifestPath d u)"
  by (cases part)
     (simp_all add: multer_single_Some multer_single_None readJSON_other_upd_other multer_path_neq)

lemma handler_ok:
  assumes "readJSON fs (manifestPath d uid) = Some m" "uid \<noteq> []" "ci \<noteq> []" "fs tmp = Some c"
  shows "upload_chunk_handler d fs (Some uid) (Some ci) (Some tmp) =
           (((fs(tmp := None))(chunkPath d uid ci \<mapsto> c))
               (manifestPath d uid \<mapsto> ManifestJSON (register_index m ci)),
            ChunkOk (uploadedChunks (register_index m ci)))"
  using assms
  by (simp add: upload_chunk_handler_def missing_def renameSync_def register_index_def Let_def)

lemma upload_chunk_ok:
  assumes "readJSON fs (manifestPath d uid) = Some m" "uid \<noteq> []" "ci \<noteq> []"
  shows "upload_chunk d now rnd fs (Some uid) (Some ci) (Some c) =
           (((fs(multer_path d now rnd := None))(chunkPath d uid ci \<mapsto> c))
               (manifestPath d uid \<mapsto> ManifestJSON (register_index m ci)),
            ChunkOk (uploadedChunks (register_index m ci)))"
proof -
  have "readJSON (fs(multer_path d now rnd \<mapsto> c)) (manifestPath d uid) = Some m"
    using assms(1) by (simp add: readJSON_upd_other multer_path_neq)
  from handler_ok [OF this assms(2,3), of "multer_path d now rnd" c]
  show ?thesis by (simp add: upload_chunk_def multer_single_Some)
qed

lemma register_index_fields:
  "fileName (register_index m ci) = fileName m"
  "totalChunks (register_index m ci) = totalChunks m"
  by (simp_all add: register_index_def)

lemma register_index_int:
  "parseInt_str ci = Some i \<Longrightarrow>
     uploadedChunks (register_index m ci) =
       (if Some i \<in> set (uploadedChunks m) then uploadedChunks m else uploadedChunks m @ [Some i])"
  by (simp add: register_index_def array_includes_def)

lemma register_index_NaN:
  "parseInt_str ci = None \<Longrightarrow> uploadedChunks (register_index m ci) = uploadedChunks m @ [None]"
  by (simp add: register_index_def array_includes_def)

text \<open>
  Claim C6, amended. The chunk request is answered 400 when \<open>uploadId\<close> or
  \<open>chunkIndex\<close> is missing or empty, when the session has no manifest (the
  manifest file does not exist, is blank, or starts with a character that no JSON
  text starts with), and when the session exists but the form carries no file
  part. A request for an existing session with a file part is accepted whatever
  number its index denotes and however short its payload, when the index contains
  no path separator and no NUL character and denotes a safe integer or no number:
  the payload becomes the chunk file of that index and the manifest records
  \<open>parseInt(chunkIndex)\<close>. There is no check of the index against
  \<open>1..totalChunks\<close> and none that the payload is non-empty. A request that is
  answered 400 changes no file but the temporary file that multer has stored for
  its file part.
\<close>

theorem chunk_preconditions:
  "(missing uid \<or> missing ci \<longrightarrow>
      snd (upload_chunk d now rnd fs uid ci part) = Err 400 ''uploadId and chunkIndex required'')
   \<and> (\<not> missing uid \<and> \<not> missing ci \<and> readJSON fs (manifestPath d (the uid)) = None \<and>
        \<not> readJSON_other fs (manifestPath d (the uid)) \<longrightarrow>
        snd (upload_chunk d now rnd fs uid ci part) = Err 400 ''Invalid or missing manifest file'')
   \<and> (\<forall>m. \<not> missing uid \<and> \<not> missing ci \<and> readJSON fs (manifestPath d (the uid)) = Some m \<and>
          part = None \<longrightarrow>
        snd (upload_chunk d now rnd fs uid ci part) = Err 400 ''Chunk file missing'')
   \<and> (\<forall>m c. \<not> missing uid \<and> \<not> missing ci \<and> readJSON fs (manifestPath d (the uid)) = Some m \<and>
          part = Some c \<and> CHR ''/'' \<notin> set (the ci) \<and> CHR 0x00 \<notin> set (the ci) \<and>
          parsed_exactly (parseInt_str (the ci)) \<longrightarrow>
        upload_chunk d now rnd fs uid ci part =
          (((fs(multer_path d now rnd := None))(chunkPath d (the uid) (the ci) \<mapsto> c))
               (manifestPath d (the uid) \<mapsto> ManifestJSON (register_index m (the ci))),
           ChunkOk (uploadedChunks (register_index m (the ci)))) \<and>
        parseInt_str (the ci) \<in> set (uploadedChunks (register_index m (the ci))))
   \<and> (\<forall>msg. snd (upload_chunk d now rnd fs uid ci part) = Err 400 msg \<longrightarrow>
        fst (upload_chunk d now rnd fs uid ci part) =
          (case part of None \<Rightarrow> fs | Some c \<Rightarrow> fs(multer_path d now rnd \<mapsto> c)))"
proof -
  let ?r = "upload_chunk d now rnd fs uid ci part"
  have A: "missing uid \<or> missing ci \<longrightarrow> snd ?r = Err 400 ''uploadId and chunkIndex required''"
    by (auto simp: upload_chunk_def upload_chunk_handler_def split: prod.splits)
  have rj: "readJSON (fst (multer_single d now rnd fs part)) (manifestPath d (the uid)) =
            readJSON fs (manifestPath d (the uid))"
    by (rule readJSON_multer)
  have ro: "readJSON_other (fst (multer_single d now rnd fs part)) (manifestPath d (the uid)) =
            readJSON_other fs (manifestPath d (the uid))"
    by (rule readJSON_other_multer)
  have B: "\<not> missing uid \<and> \<not> missing ci \<and> readJSON fs (manifestPath d (the uid)) = None \<and>
        \<not> readJSON_other fs (manifestPath d (the uid)) \<longrightarrow>
        snd ?r = Err 400 ''Invalid or missing manifest file''"
    using rj ro by (auto simp: upload_chunk_def upload_chunk_handler_def Let_def split: prod.splits)
  have C: "\<forall>m. \<not> missing uid \<and> \<not> missing ci \<and> readJSON fs (manifestPath d (the uid)) = Some m \<and>
          part = None \<longrightarrow>
        snd ?r = Err 400 ''Chunk file missing''"
    by (auto simp: upload_chunk_def upload_chunk_handler_def Let_def multer_single_None)
  have D: "\<forall>m c. \<not> missing uid \<and> \<not> missing ci \<and> readJSON fs (manifestPath d (the uid)) = Some m \<and>
          part = Some c \<and> CHR ''/'' \<notin> set (the ci) \<and> CHR 0x00 \<notin> set (the ci) \<and>
          parsed_exactly (parseInt_str (the ci)) \<longrightarrow>
        ?r =
          (((fs(multer_path d now rnd := None))(chunkPath d (the uid) (the ci) \<mapsto> c))
               (manifestPath d (the uid) \<mapsto> ManifestJSON (register_index m (the ci))),
           ChunkOk (uploadedChunks (register_index m (the ci)))) \<and>
        parseInt_str (the ci) \<in> set (uploadedChunks (register_index m (the ci)))"
  proof (intro allI impI)
    fix m c
    assume h: "\<not> missing uid \<and> \<not> missing ci \<and> readJSON fs (manifestPath d (the uid)) = Some m \<and>
          part = Some c \<and> CHR ''/'' \<notin> set (the ci) \<and> CHR 0x00 \<notin> set (the ci) \<and>
          parsed_exactly (parseInt_str (the ci))"
    then obtain u i where ui: "uid = Some u" "ci = Some i" "u \<noteq> []" "i \<noteq> []"
      by (auto simp: missing_def split: option.splits)
    have mem: "parseInt_str i \<in> set (uploadedChunks (register_index m i))"
      by (cases "parseInt_str i") (simp_all add: register_index_int register_index_NaN)
    from ui h upload_chunk_ok [of fs d u m i now rnd c] mem
    show "?r = (((fs(multer_path d now rnd := None))(chunkPath d (the uid) (the ci) \<mapsto> c))
               (manifestPath d (the uid) \<mapsto> ManifestJSON (register_index m (the ci))),
           ChunkOk (uploadedChunks (register_index m (the ci)))) \<and>
        parseInt_str (the ci) \<in> set (uploadedChunks (register_index m (the ci)))"
      by simp
  qed
  have E: "\<forall>msg. snd ?r = Err 400 msg \<longrightarrow>
        fst ?r = (case part of None \<Rightarrow> fs | Some c \<Rightarrow> fs(multer_path d now rnd \<mapsto> c))"
  proof (intro allI impI)
    fix msg assume e: "snd ?r = Err 400 msg"
    show "fst ?r = (case part of None \<Rightarrow> fs | Some c \<Rightarrow> fs(multer_path d now rnd \<mapsto> c))"
    proof (cases part)
      case None
      then show ?thesis
        by (auto simp: upload_chunk_def upload_chunk_handler_def Let_def multer_single_None
            split: option.splits)
    next
      case (Some c)
      with e show ?thesis
        by (auto simp: upload_chunk_def upload_chunk_handler_def Let_def multer_single_Some
            renameSync_def split: option.splits if_splits)
    qed
  qed
  from A B C D E show ?thesis by blast
qed

theorem chunk_preconditions_witness:
  "\<not> missing (Some ''5-7'') \<and> \<not> missing (Some ''2'') \<and>
   CHR ''/'' \<notin> set ''2'' \<and> CHR 0x00 \<notin> set ''2'' \<and> parsed_exactly (parseInt_str ''2'') \<and>
   snd (upload_chunk ex_dirname 6 [1, 2] ex_created (Some ''5-7'') (Some ''2'') (Some (Blob ''CD'')))
     = ChunkOk [Some 2] \<and>
   snd (upload_chunk ex_dirname 6 [1, 2] ex_created (Some ''5-7'') (Some ''2'') None)
     = Err 400 ''Chunk file missing'' \<and>
   fst (upload_chunk ex_dirname 6 [1, 2] ex_created (Some ''5-7'') (Some ''2'') None) = ex_created"
proof -
  let ?m = "\<lparr>fileName = JStr ''report.pdf'', totalChunks = Some 2, uploadedChunks = []\<rparr>"
  have a: "\<not> missing (Some ''5-7'') \<and> \<not> missing (Some ''2'')" by (simp add: missing_def)
  have b: "CHR ''/'' \<notin> set ''2'' \<and> CHR 0x00 \<notin> set ''2''" by simp
  have e: "parsed_exactly (parseInt_str ''2'')" by code_simp
  have m: "readJSON ex_created (manifestPath ex_dirname (the (Some ''5-7''))) = Some ?m"
    by code_simp
  have r: "uploadedChunks (register_index ?m (the (Some ''2''))) = [Some 2]" by code_simp
  have "snd (upload_chunk ex_dirname 6 [1, 2] ex_created (Some ''5-7'') (Some ''2'') (Some (Blob ''CD'')))
          = ChunkOk (uploadedChunks (register_index ?m (the (Some ''2''))))"
    using chunk_preconditions [of "Some ''5-7''" "Some ''2''" ex_dirname 6 "[1, 2]" ex_created
        "Some (Blob ''CD'')"] a b e m
    by simp
  moreover have n: "snd (upload_chunk ex_dirname 6 [1, 2] ex_created (Some ''5-7'') (Some ''2'') None)
     = Err 400 ''Chunk file missing''"
    using chunk_preconditions [of "Some ''5-7''" "Some ''2''" ex_dirname 6 "[1, 2]" ex_created None] a m
    by simp
  moreover have "fst (upload_chunk ex_dirname 6 [1, 2] ex_created (Some ''5-7'') (Some ''2'') None) = ex_created"
    using chunk_preconditions [of "Some ''5-7''" "Some ''2''" ex_dirname 6 "[1, 2]" ex_created None] n
    by simp
  ultimately show ?thesis using a b e r by simp
qed

text \<open>
  Claim C6 fails as stated. The sample session expects two chunks. A request for
  index 7 with an empty payload is answered with success: the manifest records the
  index 7 and an empty chunk file is stored. A request without \<open>chunkIndex\<close> is
  rejected, and the file that multer has stored for its file part stays. And when
  the manifest file of the session \<open>9\<close> holds the text \<open>{}\<close>, the request is
  answered with status 500 after its chunk has been renamed into place.
\<close>

theorem chunk_index_not_checked:
  "snd (upload_chunk ex_dirname 6 [1, 2] ex_created (Some ''5-7'') (Some ''7'') (Some (Blob [])))
     = ChunkOk [Some 7] \<and>
   readJSON (fst (upload_chunk ex_dirname 6 [1, 2] ex_created (Some ''5-7'') (Some ''7'') (Some (Blob []))))
       (manifestPath ex_dirname ''5-7'') =
     Some \<lparr>fileName = JStr ''report.pdf'', totalChunks = Some 2, uploadedChunks = [Some 7]\<rparr> \<and>
   fst (upload_chunk ex_dirname 6 [1, 2] ex_created (Some ''5-7'') (Some ''7'') (Some (Blob [])))
       (chunkPath ex_dirname ''5-7'' ''7'') = Some (Blob []) \<and>
   snd (upload_chunk ex_dirname 6 [1, 2] ex_created (Some ''5-7'') None (Some (Blob ''CD'')))
     = Err 400 ''uploadId and chunkIndex required'' \<and>
   fst (upload_chunk ex_dirname 6 [1, 2] ex_created (Some ''5-7'') None (Some (Blob ''CD'')))
       (multer_path ex_dirname 6 [1, 2]) = Some (Blob ''CD'') \<and>
   ex_created (multer_path ex_dirname 6 [1, 2]) = None \<and>
   snd (upload_chunk ex_dirname 6 [1, 2] ex_foreign (Some ''9'') (Some ''1'') (Some (Blob ''AB'')))
     = Err 500 ''Cannot read properties of undefined'' \<and>
   fst (upload_chunk ex_dirname 6 [1, 2] ex_foreign (Some ''9'') (Some ''1'') (Some (Blob ''AB'')))
       (chunkPath ex_dirname ''9'' ''1'') = Some (Blob ''AB'') \<and>
   ex_foreign (chunkPath ex_dirname ''9'' ''1'') = None"
  by code_simp

section \<open>The set of uploaded chunks\<close>

lemma complete_keeps_or_removes:
  assumes "readJSON fs (manifestPath d uid) = Some m"
  shows "readJSON (fst (upload_complete d now fs (JStr uid))) (manifestPath d uid) = None \<or>
         readJSON (fst (upload_complete d now fs (JStr uid))) (manifestPath d uid) = Some m"
  using assms
  by (auto simp: upload_complete_def Let_def readJSON_def split: option.splits jsval.splits)

lemma chunkPath_neq_issued:
  assumes "CHR ''/'' \<notin> set ci"
  shows "chunkPath d u ci \<noteq> manifestPath d (show_nat a @ ''-'' @ show_nat b)"
proof
  let ?id = "show_nat a @ ''-'' @ show_nat b"
  assume "chunkPath d u ci = manifestPath d ?id"
  then have "last (psplit u) @ ''.part'' @ ci = last (psplit ?id) @ ''.json''"
    by (simp add: chunkPath_eq [OF assms] manifestPath_eq)
  moreover have "psplit ?id = [?id]"
    using show_nat_no_x(3) [of a] show_nat_no_x(3) [of b] by (intro psplit_noslash) auto
  ultimately have "last (psplit u) @ ''.part'' @ ci = ?id @ ''.json''" by simp
  then have "set (last (psplit u) @ ''.part'' @ ci) = set (?id @ ''.json'')" by simp
  moreover have "CHR ''p'' \<in> set (last (psplit u) @ ''.part'' @ ci)" by simp
  moreover have "CHR ''p'' \<notin> set (?id @ ''.json'')"
    using show_nat_digits [of a] show_nat_digits [of b] by auto
  ultimately show False by simp
qed

lemma issued_manifestPath_inj:
  assumes "manifestPath d (show_nat a' @ ''-'' @ show_nat b') = manifestPath d (show_nat a @ ''-'' @ show_nat b)"
  shows "a' = a \<and> b' = b"
proof -
  have ps: "psplit (show_nat x @ CHR ''-'' # show_nat y) = [show_nat x @ CHR ''-'' # show_nat y]" for x y
    using show_nat_no_x(3) [of x] show_nat_no_x(3) [of y] by (intro psplit_noslash) auto
  from assms have "show_nat a' @ ''-'' @ show_nat b' = show_nat a @ ''-'' @ show_nat b"
    by (simp add: manifestPath_eq ps)
  then show ?thesis by (rule uploadId_inj)
qed

lemma assembly_loop_keeps_file:
  assumes "\<forall>k. i \<le> k \<and> k \<le> jobTotal j \<longrightarrow> chunkPath d (jobUploadId j) (show_int k) \<noteq> p"
    and "p \<noteq> finalDest j"
  shows "assembly_files (assembly_loop d fs j i) p = fs p"
  using assms
proof (induction d fs j i rule: assembly_loop.induct)
  case (1 d fs j i)
  show ?case
  proof (cases "i \<le> jobTotal j")
    case False
    then show ?thesis by (subst assembly_loop.simps) simp
  next
    case True
    show ?thesis
    proof (cases "pipe_chunk fs (finalDest j) (chunkPath d (jobUploadId j) (show_int i))")
      case None
      with True show ?thesis by (subst assembly_loop.simps) simp
    next
      case (Some fsn)
      with "1.prems" True have "fsn p = fs p"
        by (auto simp: pipe_chunk_def stream_write_def split: option.splits)
      moreover have "assembly_files (assembly_loop d fsn j (i + 1)) p = fsn p"
        using "1.IH" [OF True Some] "1.prems" by auto
      moreover have "assembly_loop d fs j i = assembly_loop d fsn j (i + 1)"
        using True Some by (subst assembly_loop.simps) simp
      ultimately show ?thesis by simp
    qed
  qed
qed

text \<open>
  Claim C5, amended. Take a session that \<open>POST /upload/init\<close> has issued, with the
  identifier \<open><a>-<b>\<close> and the manifest \<open>m\<close>. A chunk request, for this session or
  for any other, whose index contains no path separator and no NUL character and
  denotes a safe integer or no number, keeps \<open>fileName\<close> and \<open>totalChunks\<close> and
  only extends \<open>uploadedChunks\<close>: the list before the request is a prefix of the
  list after it, it gains at most one element, which is \<open>parseInt(chunkIndex)\<close>,
  and when that is a number a duplicate-free list stays duplicate-free. A
  completion request leaves the manifest as it is, or removes it when it is
  answered with success. An init request with another clock value or random number
  leaves the manifest as it is, and so does every assembly whose destination is
  not the manifest file. Nothing confines the indices to \<open>1..totalChunks\<close>.
\<close>

theorem uploadedChunks_grows:
  assumes "readJSON fs (manifestPath d (show_nat a @ ''-'' @ show_nat b)) = Some m"
  shows "(\<forall>uid ci part now rnd.
            (\<forall>c. ci = Some c \<longrightarrow>
                 CHR ''/'' \<notin> set c \<and> CHR 0x00 \<notin> set c \<and> parsed_exactly (parseInt_str c)) \<longrightarrow>
            (\<exists>m'. readJSON (fst (upload_chunk d now rnd fs uid ci part))
                     (manifestPath d (show_nat a @ ''-'' @ show_nat b)) = Some m' \<and>
                 fileName m' = fileName m \<and> totalChunks m' = totalChunks m \<and>
                 (\<exists>ys. uploadedChunks m' = uploadedChunks m @ ys \<and> length ys \<le> 1 \<and>
                       set ys \<subseteq> {parseInt_str (the ci)}) \<and>
                 (parseInt_str (the ci) \<noteq> None \<and> distinct (uploadedChunks m) \<longrightarrow>
                    distinct (uploadedChunks m'))))
       \<and> (\<forall>uploadId now.
            readJSON (fst (upload_complete d now fs uploadId))
                (manifestPath d (show_nat a @ ''-'' @ show_nat b)) = Some m \<or>
            readJSON (fst (upload_complete d now fs uploadId))
                (manifestPath d (show_nat a @ ''-'' @ show_nat b)) = None \<and>
            (\<exists>url. fst (snd (upload_complete d now fs uploadId)) = CompleteOk url))
       \<and> (\<forall>now rnd f t. (now, rnd) \<noteq> (a, b) \<longrightarrow>
            readJSON (fst (upload_init d now rnd fs f t))
                (manifestPath d (show_nat a @ ''-'' @ show_nat b)) = Some m)
       \<and> (\<forall>j :: job. finalDest j \<noteq> manifestPath d (show_nat a @ ''-'' @ show_nat b) \<longrightarrow>
            readJSON (assembly_files (run_assembly d fs j))
                (manifestPath d (show_nat a @ ''-'' @ show_nat b)) = Some m)"
proof -
  let ?mp = "manifestPath d (show_nat a @ ''-'' @ show_nat b)"
  have cpn: "CHR ''/'' \<notin> set c \<Longrightarrow> chunkPath d u c \<noteq> ?mp" for c u
    by (rule chunkPath_neq_issued)
  have A: "\<forall>uid ci part now rnd.
            (\<forall>c. ci = Some c \<longrightarrow>
                 CHR ''/'' \<notin> set c \<and> CHR 0x00 \<notin> set c \<and> parsed_exactly (parseInt_str c)) \<longrightarrow>
            (\<exists>m'. readJSON (fst (upload_chunk d now rnd fs uid ci part)) ?mp = Some m' \<and>
                 fileName m' = fileName m \<and> totalChunks m' = totalChunks m \<and>
                 (\<exists>ys. uploadedChunks m' = uploadedChunks m @ ys \<and> length ys \<le> 1 \<and>
                       set ys \<subseteq> {parseInt_str (the ci)}) \<and>
                 (parseInt_str (the ci) \<noteq> None \<and> distinct (uploadedChunks m) \<longrightarrow>
                    distinct (uploadedChunks m')))"
  proof (intro allI impI)
    fix uid ci part now rnd
    assume h: "\<forall>c. ci = Some c \<longrightarrow>
                 CHR ''/'' \<notin> set c \<and> CHR 0x00 \<notin> set c \<and> parsed_exactly (parseInt_str c)"
    let ?r = "upload_chunk d now rnd fs uid ci part"
    let ?P = "\<lambda>m'. fileName m' = fileName m \<and> totalChunks m' = totalChunks m \<and>
                 (\<exists>ys. uploadedChunks m' = uploadedChunks m @ ys \<and> length ys \<le> 1 \<and>
                       set ys \<subseteq> {parseInt_str (the ci)}) \<and>
                 (parseInt_str (the ci) \<noteq> None \<and> distinct (uploadedChunks m) \<longrightarrow>
                    distinct (uploadedChunks m'))"
    have Pm: "?P m" by simp
    have Pr: "?P (register_index m (the ci))"
      by (auto simp: register_index_def array_includes_def)
    have keep: "readJSON (fst (multer_single d now rnd fs part)) ?mp = Some m"
      using assms by (simp add: readJSON_multer)
    have "readJSON (fst ?r) ?mp = Some m \<or> readJSON (fst ?r) ?mp = Some (register_index m (the ci))"
    proof (cases "missing uid \<or> missing ci")
      case True
      then have "fst ?r = fst (multer_single d now rnd fs part)"
        by (auto simp: upload_chunk_def upload_chunk_handler_def split: prod.splits)
      with keep show ?thesis by simp
    next
      case False
      then obtain u c where uc: "uid = Some u" "ci = Some c" "u \<noteq> []" "c \<noteq> []"
        by (auto simp: missing_def split: option.splits)
      with h have ns: "CHR ''/'' \<notin> set c" by simp
      obtain fs1 rf where ms: "multer_single d now rnd fs part = (fs1, rf)" by (cases "multer_single d now rnd fs part")
      with keep have k1: "readJSON fs1 ?mp = Some m" by simp
      have rfs: "rf = None \<or> (\<exists>x. part = Some x \<and> rf = Some (multer_path d now rnd) \<and> fs1 (multer_path d now rnd) = Some x)"
        using ms by (cases part) (auto simp: multer_single_Some multer_single_None)
      have hr: "?r = upload_chunk_handler d fs1 (Some u) (Some c) rf"
        using ms uc by (simp add: upload_chunk_def)
      show ?thesis
      proof (cases "readJSON fs1 (manifestPath d u)")
        case None
        have "fst (upload_chunk_handler d fs1 (Some u) (Some c) rf) ?mp = fs1 ?mp"
          using None rfs cpn [OF ns, of u] multer_path_neq(1) [of d now rnd "show_nat a @ ''-'' @ show_nat b"]
          by (auto simp: upload_chunk_handler_def Let_def missing_def renameSync_def uc
              split: option.splits)
        then have "readJSON (fst ?r) ?mp = readJSON fs1 ?mp" by (simp add: hr readJSON_def)
        with k1 show ?thesis by simp
      next
        case (Some m1)
        show ?thesis
        proof (cases rf)
          case None
          then have "fst (upload_chunk_handler d fs1 (Some u) (Some c) rf) = fs1"
            using Some uc by (simp add: upload_chunk_handler_def Let_def missing_def)
          with k1 hr show ?thesis by simp
        next
          case (Some tmp)
          with rfs obtain x where x: "rf = Some (multer_path d now rnd)" "fs1 (multer_path d now rnd) = Some x"
            by auto
          from handler_ok [OF \<open>readJSON fs1 (manifestPath d u) = Some m1\<close> uc(3,4) x(2)]
          have eq: "fst ?r = ((fs1(multer_path d now rnd := None))(chunkPath d u c \<mapsto> x))
                        (manifestPath d u \<mapsto> ManifestJSON (register_index m1 c))"
            using hr x(1) by simp
          show ?thesis
          proof (cases "manifestPath d u = ?mp")
            case True
            with \<open>readJSON fs1 (manifestPath d u) = Some m1\<close> k1 have "m1 = m" by simp
            with eq True uc show ?thesis by (simp add: readJSON_upd_same)
          next
            case False
            then have "readJSON (fst ?r) ?mp = readJSON fs1 ?mp"
              using cpn [OF ns, of u] multer_path_neq(1) [of d now rnd "show_nat a @ ''-'' @ show_nat b"]
              by (simp add: eq readJSON_def)
            with k1 show ?thesis by simp
          qed
        qed
      qed
    qed
    with Pm Pr show "\<exists>m'. readJSON (fst ?r) ?mp = Some m' \<and> ?P m'" by blast
  qed
  have B: "\<forall>uploadId now.
            readJSON (fst (upload_complete d now fs uploadId)) ?mp = Some m \<or>
            readJSON (fst (upload_complete d now fs uploadId)) ?mp = None \<and>
            (\<exists>url. fst (snd (upload_complete d now fs uploadId)) = CompleteOk url)"
    using assms
    by (auto simp: upload_complete_def Let_def readJSON_def split: option.splits jsval.splits content.splits)
  have C: "\<forall>now rnd f t. (now, rnd) \<noteq> (a, b) \<longrightarrow>
            readJSON (fst (upload_init d now rnd fs f t)) ?mp = Some m"
  proof (intro allI impI)
    fix now rnd f t assume ne: "(now, rnd) \<noteq> (a, b)"
    then have "manifestPath d (show_nat now @ ''-'' @ show_nat rnd) \<noteq> ?mp"
      using issued_manifestPath_inj [of d now rnd a b] by auto
    then show "readJSON (fst (upload_init d now rnd fs f t)) ?mp = Some m"
      using assms by (auto simp: upload_init_def Let_def readJSON_def)
  qed
  have D: "\<forall>j :: job. finalDest j \<noteq> ?mp \<longrightarrow> readJSON (assembly_files (run_assembly d fs j)) ?mp = Some m"
  proof (intro allI impI)
    fix j :: job assume ne: "finalDest j \<noteq> ?mp"
    have "assembly_files (assembly_loop d (fs(finalDest j \<mapsto> Blob [])) j 1) ?mp =
            (fs(finalDest j \<mapsto> Blob [])) ?mp"
      using ne cpn [OF show_int_no_slash] by (intro assembly_loop_keeps_file) auto
    then show "readJSON (assembly_files (run_assembly d fs j)) ?mp = Some m"
      using assms ne by (simp add: run_assembly_def readJSON_def)
  qed
  from A B C D show ?thesis by blast
qed

theorem uploadedChunks_grows_witness:
  "readJSON ex_one_chunk (manifestPath ex_dirname (show_nat 5 @ ''-'' @ show_nat 7)) =
     Some \<lparr>fileName = JStr ''report.pdf'', totalChunks = Some 2, uploadedChunks = [Some 2]\<rparr> \<and>
   CHR ''/'' \<notin> set ''1'' \<and> CHR 0x00 \<notin> set ''1'' \<and> parsed_exactly (parseInt_str ''1'') \<and>
   (5 :: nat, 8 :: nat) \<noteq> (5, 7) \<and>
   (\<exists>m'. readJSON ex_uploaded (manifestPath ex_dirname ''5-7'') = Some m' \<and>
         totalChunks m' = Some 2 \<and> (\<exists>ys. uploadedChunks m' = [Some 2] @ ys \<and> length ys \<le> 1) \<and>
         distinct (uploadedChunks m')) \<and>
   readJSON (fst (upload_init ex_dirname 5 8 ex_one_chunk (JStr ''b.txt'') (JNum 1)))
       (manifestPath ex_dirname ''5-7'') =
     Some \<lparr>fileName = JStr ''report.pdf'', totalChunks = Some 2, uploadedChunks = [Some 2]\<rparr>"
proof -
  let ?m = "\<lparr>fileName = JStr ''report.pdf'', totalChunks = Some 2, uploadedChunks = [Some 2]\<rparr>"
  have u: "show_nat 5 @ ''-'' @ show_nat 7 = ''5-7''" by code_simp
  have m: "readJSON ex_one_chunk (manifestPath ex_dirname (show_nat 5 @ ''-'' @ show_nat 7)) = Some ?m"
    by code_simp
  have p: "parseInt_str ''1'' = Some 1" by code_simp
  have h: "CHR ''/'' \<notin> set ''1'' \<and> CHR 0x00 \<notin> set ''1'' \<and> parsed_exactly (parseInt_str ''1'')"
    by (simp add: p parsed_exactly_def safe_integer_def)
  have ne: "(5 :: nat, 8 :: nat) \<noteq> (5, 7)" by simp
  note T = uploadedChunks_grows [OF m]
  from T have "(\<forall>c. Some ''1'' = Some c \<longrightarrow>
                 CHR ''/'' \<notin> set c \<and> CHR 0x00 \<notin> set c \<and> parsed_exactly (parseInt_str c)) \<longrightarrow>
     (\<exists>m'. readJSON (fst (upload_chunk ex_dirname 7 [3, 4] ex_one_chunk (Some ''5-7'') (Some ''1'') (Some (Blob ''AB''))))
               (manifestPath ex_dirname (show_nat 5 @ ''-'' @ show_nat 7)) = Some m' \<and>
         fileName m' = fileName ?m \<and> totalChunks m' = totalChunks ?m \<and>
         (\<exists>ys. uploadedChunks m' = uploadedChunks ?m @ ys \<and> length ys \<le> 1 \<and>
               set ys \<subseteq> {parseInt_str (the (Some ''1''))}) \<and>
         (parseInt_str (the (Some ''1'')) \<noteq> None \<and> distinct (uploadedChunks ?m) \<longrightarrow>
            distinct (uploadedChunks m')))"
    by blast
  with h p have c: "\<exists>m'. readJSON ex_uploaded (manifestPath ex_dirname ''5-7'') = Some m' \<and>
         totalChunks m' = Some 2 \<and> (\<exists>ys. uploadedChunks m' = [Some 2] @ ys \<and> length ys \<le> 1) \<and>
         distinct (uploadedChunks m')"
    unfolding ex_uploaded_def u by auto
  from T ne have "readJSON (fst (upload_init ex_dirname 5 8 ex_one_chunk (JStr ''b.txt'') (JNum 1)))
       (manifestPath ex_dirname (show_nat 5 @ ''-'' @ show_nat 7)) = Some ?m"
    by blast
  with m h ne c show ?thesis unfolding u by simp
qed

text \<open>
  Claim C5 fails as stated. In the sample session of two chunks a request for index
  3 is recorded, so \<open>uploadedChunks\<close> leaves \<open>1..totalChunks\<close>; and two requests
  with the index \<open>abc\<close> record \<open>null\<close> twice, so it is neither a set of integers nor
  duplicate-free. Nor does every operation keep what has been recorded. After both
  chunks of the sample session \<open>5-7\<close> have been recorded, a chunk request for
  another session, \<open>5-8\<close>, with the index \<open>/../5-7.json\<close> renames its payload onto
  the manifest of \<open>5-7\<close>, and the status request no longer finds that session; and
  an init request at the same clock value with the same random number replaces the
  manifest by one with no uploaded chunk.
\<close>

theorem uploadedChunks_leaves_range:
  "readJSON (fst (upload_chunk ex_dirname 6 [1, 2] ex_created (Some ''5-7'') (Some ''3'') (Some (Blob ''EF''))))
       (manifestPath ex_dirname ''5-7'') =
     Some \<lparr>fileName = JStr ''report.pdf'', totalChunks = Some 2, uploadedChunks = [Some 3]\<rparr> \<and>
   Some 3 \<notin> Some ` {1 .. 2 :: int} \<and>
   readJSON (fst (upload_chunk ex_dirname 8 [5]
                (fst (upload_chunk ex_dirname 6 [1, 2] ex_created (Some ''5-7'') (Some ''abc'') (Some (Blob ''EF''))))
                (Some ''5-7'') (Some ''abc'') (Some (Blob ''EF''))))
       (manifestPath ex_dirname ''5-7'') =
     Some \<lparr>fileName = JStr ''report.pdf'', totalChunks = Some 2, uploadedChunks = [None, None]\<rparr> \<and>
   \<not> distinct [None :: int option, None] \<and>
   upload_status ex_dirname ex_two_sessions (Some ''5-7'') = StatusOk [Some 2, Some 1] \<and>
   snd (upload_chunk ex_dirname 8 [5] ex_two_sessions (Some ''5-8'') (Some ''/../5-7.json'') (Some (Blob ''EF'')))
     = ChunkOk [None] \<and>
   fst (upload_chunk ex_dirname 8 [5] ex_two_sessions (Some ''5-8'') (Some ''/../5-7.json'') (Some (Blob ''EF'')))
       (manifestPath ex_dirname ''5-7'') = Some (Blob ''EF'') \<and>
   upload_status ex_dirname
       (fst (upload_chunk ex_dirname 8 [5] ex_two_sessions (Some ''5-8'') (Some ''/../5-7.json'') (Some (Blob ''EF''))))
       (Some ''5-7'') = Err 404 ''Upload not found'' \<and>
   snd (upload_init ex_dirname 5 7 ex_uploaded (JStr ''other.txt'') (JNum 1)) = InitOk ''5-7'' \<and>
   upload_status ex_dirname (fst (upload_init ex_dirname 5 7 ex_uploaded (JStr ''other.txt'') (JNum 1)))
       (Some ''5-7'') = StatusOk []"
  by code_simp

section \<open>Registering an index again\<close>



section \<open>The completion request and the manifest\<close>

lemma upload_complete_ok:
  assumes "truthy uploadId"
    and "readJSON fs (manifestPath d (to_string uploadId)) = Some m"
    and "totalChunks m = Some (int (length (uploadedChunks m)))"
    and "\<forall>k. 1 \<le> k \<and> k \<le> int (length (uploadedChunks m)) \<longrightarrow>
           fs (chunkPath d (to_string uploadId) (show_int k)) \<noteq> None"
    and "fileName m = JStr name"
    and "\<not> has_nul (path_join (UPLOAD_ROOT d)
                        [categoryForExt (extname name), show_nat now @ ''-'' @ name])"
  shows "upload_complete d now fs uploadId =
           (fs(manifestPath d (to_string uploadId) := None),
            CompleteOk (''/uploads/'' @ categoryForExt (extname name) @ ''/'' @ show_nat now @ ''-'' @ name),
            Some \<lparr>finalDest = path_join (UPLOAD_ROOT d)
                                 [categoryForExt (extname name), show_nat now @ ''-'' @ name],
                  jobUploadId = to_string uploadId,
                  jobTotal = int (length (uploadedChunks m))\<rparr>)"
proof -
  have "verify_chunks d fs (to_string uploadId) 1 (int (length (uploadedChunks m))) = None"
    using assms(4) by (simp add: verify_chunks_None)
  with assms show ?thesis by (simp add: upload_complete_def Let_def)
qed

lemma upload_complete_cases:
  "upload_complete d now fs uploadId = (fs1, r, j) \<Longrightarrow>
     (j = None \<and> fs1 = fs \<and> (\<exists>code msg. r = Err code msg)) \<or>
     (\<exists>m name. truthy uploadId \<and> readJSON fs (manifestPath d (to_string uploadId)) = Some m \<and>
        fileName m = JStr name \<and>
        fs1 = fs(manifestPath d (to_string uploadId) := None) \<and>
        r = CompleteOk (''/uploads/'' @ categoryForExt (extname name) @ ''/'' @ show_nat now @ ''-'' @ name) \<and>
        j = Some \<lparr>finalDest = path_join (UPLOAD_ROOT d)
                                 [categoryForExt (extname name), show_nat now @ ''-'' @ name],
                  jobUploadId = to_string uploadId,
                  jobTotal = the (totalChunks m)\<rparr>)"
  by (auto simp: upload_complete_def Let_def split: if_splits option.splits jsval.splits)

lemma complete_rejected_or_unlinked:
  "(\<forall>fs1 r. upload_complete d now fs uploadId = (fs1, r, None) \<longrightarrow>
       fs1 = fs \<and> (\<exists>code msg. r = Err code msg))
   \<and> (\<forall>fs1 r j. upload_complete d now fs uploadId = (fs1, r, Some j) \<longrightarrow>
       truthy uploadId \<and>
       readJSON fs (manifestPath d (to_string uploadId)) \<noteq> None \<and>
       fs1 = fs(manifestPath d (to_string uploadId) := None) \<and>
       (\<exists>url. r = CompleteOk url))"
proof -
  have A: "\<forall>fs1 r. upload_complete d now fs uploadId = (fs1, r, None) \<longrightarrow>
       fs1 = fs \<and> (\<exists>code msg. r = Err code msg)"
  proof (intro allI impI)
    fix fs1 r assume "upload_complete d now fs uploadId = (fs1, r, None)"
    from upload_complete_cases [OF this] show "fs1 = fs \<and> (\<exists>code msg. r = Err code msg)" by auto
  qed
  have B: "\<forall>fs1 r j. upload_complete d now fs uploadId = (fs1, r, Some j) \<longrightarrow>
       truthy uploadId \<and>
       readJSON fs (manifestPath d (to_string uploadId)) \<noteq> None \<and>
       fs1 = fs(manifestPath d (to_string uploadId) := None) \<and>
       (\<exists>url. r = CompleteOk url)"
  proof (intro allI impI)
    fix fs1 r j assume "upload_complete d now fs uploadId = (fs1, r, Some j)"
    from upload_complete_cases [OF this]
    show "truthy uploadId \<and>
       readJSON fs (manifestPath d (to_string uploadId)) \<noteq> None \<and>
       fs1 = fs(manifestPath d (to_string uploadId) := None) \<and>
       (\<exists>url. r = CompleteOk url)"
      by auto
  qed
  from A B show ?thesis by blast
qed

lemma ex_completion_eq:
  "ex_completion =
     (ex_uploaded(manifestPath ex_dirname ''5-7'' := None),
      CompleteOk ''/uploads/docs/9-report.pdf'', Some ex_job)"
proof -
  have t: "truthy (JStr ''5-7'')" by simp
  have m: "readJSON ex_uploaded (manifestPath ex_dirname (to_string (JStr ''5-7''))) =
             Some \<lparr>fileName = JStr ''report.pdf'', totalChunks = Some 2,
                   uploadedChunks = [Some 2, Some 1]\<rparr>"
    by code_simp
  have c: "\<forall>k. 1 \<le> k \<and> k \<le> int (length (uploadedChunks \<lparr>fileName = JStr ''report.pdf'', totalChunks = Some 2,
                   uploadedChunks = [Some 2, Some 1]\<rparr>)) \<longrightarrow>
           ex_uploaded (chunkPath ex_dirname (to_string (JStr ''5-7'')) (show_int k)) \<noteq> None"
  proof (intro allI impI)
    fix k :: int assume "1 \<le> k \<and> k \<le> int (length (uploadedChunks \<lparr>fileName = JStr ''report.pdf'', totalChunks = Some 2,
                   uploadedChunks = [Some 2, Some 1]\<rparr>))"
    then have "k = 1 \<or> k = 2" by auto
    moreover have "ex_uploaded (chunkPath ex_dirname (to_string (JStr ''5-7'')) (show_int 1)) \<noteq> None"
      by code_simp
    moreover have "ex_uploaded (chunkPath ex_dirname (to_string (JStr ''5-7'')) (show_int 2)) \<noteq> None"
      by code_simp
    ultimately show "ex_uploaded (chunkPath ex_dirname (to_string (JStr ''5-7'')) (show_int k)) \<noteq> None"
      by auto
  qed
  have e: "''/uploads/'' @ categoryForExt (extname ''report.pdf'') @ ''/'' @ show_nat 9 @ ''-'' @ ''report.pdf''
             = ''/uploads/docs/9-report.pdf''"
    by code_simp
  have j: "\<lparr>finalDest = path_join (UPLOAD_ROOT ex_dirname)
                                 [categoryForExt (extname ''report.pdf''), show_nat 9 @ ''-'' @ ''report.pdf''],
                  jobUploadId = to_string (JStr ''5-7''),
                  jobTotal = int (length (uploadedChunks \<lparr>fileName = JStr ''report.pdf'', totalChunks = Some 2,
                   uploadedChunks = [Some 2, Some 1]\<rparr>))\<rparr> = ex_job"
    by code_simp
  have n: "\<not> has_nul (path_join (UPLOAD_ROOT ex_dirname)
                        [categoryForExt (extname ''report.pdf''), show_nat 9 @ ''-'' @ ''report.pdf''])"
    by code_simp
  from upload_complete_ok [OF t m _ c _ n]
  show ?thesis unfolding ex_completion_def e j by simp
qed

text \<open>
  Claim C2: the manifest of a session is deleted only after the assembly has fully
  succeeded. The handler does not keep to it. It starts the assembly as an
  asynchronous function that it does not await, and unlinks the manifest and
  answers in the same synchronous run. When the completion request for the sample
  session has been answered with success, the manifest is gone, although the
  destination has not been written and both chunk files are still waiting to be
  appended. If the file of chunk 2 then disappears, the assembly stops at index 2
  with half of the file written, and there is no manifest left to complete the
  session again: a further completion request is answered 400. The handler of
  \<^verbatim>\<open>src/server.js\<close> writes the chunks before it answers.
\<close>

theorem manifest_deleted_before_assembly:
  "fst (snd ex_completion) = CompleteOk ''/uploads/docs/9-report.pdf'' \<and>
   snd (snd ex_completion) = Some ex_job \<and>
   fst ex_completion (manifestPath ex_dirname ''5-7'') = None \<and>
   fst ex_completion (finalDest ex_job) = None \<and>
   fst ex_completion (chunkPath ex_dirname ''5-7'' ''1'') = Some (Blob ''AB'') \<and>
   fst ex_completion (chunkPath ex_dirname ''5-7'' ''2'') = Some (Blob ''CD'') \<and>
   (case run_assembly ex_dirname ((fst ex_completion)(chunkPath ex_dirname ''5-7'' ''2'' := None)) ex_job of
      Inl (i, fs2) \<Rightarrow>
        i = 2 \<and> fs2 (manifestPath ex_dirname ''5-7'') = None \<and>
        fs2 (finalDest ex_job) = Some (Blob ''AB'') \<and>
        fst (snd (upload_complete ex_dirname 10 fs2 (JStr ''5-7''))) =
          Err 400 ''Invalid uploadId or manifest missing''
    | Inr fs2 \<Rightarrow> False)"
  by code_simp

section \<open>The destination of the assembled file\<close>

lemma categoryForExt_cases:
  "categoryForExt e = ''images'' \<or> categoryForExt e = ''videos'' \<or>
   categoryForExt e = ''docs'' \<or> categoryForExt e = ''others''"
  by (simp add: categoryForExt_def Let_def)

lemma categoryForExt_in: "categoryForExt e \<in> set CATEGORIES"
  using categoryForExt_cases [of e] by (auto simp: CATEGORIES_def)

lemma final_dest_plain_name:
  assumes "CHR ''/'' \<notin> set name"
  shows "path_join (UPLOAD_ROOT d) [categoryForExt (extname name), show_nat now @ ''-'' @ name] =
           UPLOAD_ROOT d @ [categoryForExt (extname name), show_nat now @ ''-'' @ name]"
proof -
  let ?f = "show_nat now @ ''-'' @ name"
  have f: "psplit ?f = [?f]" using assms show_nat_no_x(3) [of now] by (intro psplit_noslash) auto
  have "plain (show_nat now @ ''-'' @ name)"
    using plain_suffix [of "''-'' @ name" "show_nat now"] by simp
  then have p: "?f \<noteq> []" "?f \<noteq> ''.''" "?f \<noteq> ''..''" by (auto simp: plain_def)
  show ?thesis
    using categoryForExt_cases [of "extname name"] f p
    by (auto simp: path_join_def)
qed

text \<open>
  Claim C8, amended. The \<open>fileName\<close> of the manifest is used for the extension, which
  selects the category, and for the final name \<open><Date.now()>-<fileName>\<close>, which
  is joined to the category directory as it is. When the \<open>fileName\<close> contains no
  path separator, the destination is the file of that name in the directory of
  one of the four categories. No step sanitises a name that contains separators.
\<close>

theorem destination_in_category:
  assumes "upload_complete d now fs uploadId = (fs1, r, Some j)"
    and "readJSON fs (manifestPath d (to_string uploadId)) = Some m"
    and "fileName m = JStr name"
    and "CHR ''/'' \<notin> set name"
  shows "finalDest j = UPLOAD_ROOT d @ [categoryForExt (extname name), show_nat now @ ''-'' @ name] \<and>
         categoryForExt (extname name) \<in> set CATEGORIES \<and>
         r = CompleteOk (''/uploads/'' @ categoryForExt (extname name) @ ''/'' @ show_nat now @ ''-'' @ name)"
proof -
  from upload_complete_cases [OF assms(1)] assms(2,3)
  have "finalDest j = path_join (UPLOAD_ROOT d) [categoryForExt (extname name), show_nat now @ ''-'' @ name]"
    and "r = CompleteOk (''/uploads/'' @ categoryForExt (extname name) @ ''/'' @ show_nat now @ ''-'' @ name)"
    by auto
  then show ?thesis
    using final_dest_plain_name [OF assms(4)] categoryForExt_in by simp
qed

theorem destination_in_category_witness:
  "upload_complete ex_dirname 9 ex_uploaded (JStr ''5-7'') =
     (fst ex_completion, fst (snd ex_completion), Some ex_job) \<and>
   CHR ''/'' \<notin> set ''report.pdf'' \<and>
   finalDest ex_job = UPLOAD_ROOT ex_dirname @ [''docs'', ''9-report.pdf''] \<and>
   fst (snd ex_completion) = CompleteOk ''/uploads/docs/9-report.pdf''"
proof -
  have e: "upload_complete ex_dirname 9 ex_uploaded (JStr ''5-7'') =
             (fst ex_completion, fst (snd ex_completion), Some ex_job)"
    by (simp add: ex_completion_eq ex_completion_def [symmetric])
  have m: "readJSON ex_uploaded (manifestPath ex_dirname (to_string (JStr ''5-7''))) =
             Some \<lparr>fileName = JStr ''report.pdf'', totalChunks = Some 2,
                   uploadedChunks = [Some 2, Some 1]\<rparr>"
    by code_simp
  have n: "CHR ''/'' \<notin> set ''report.pdf''" by simp
  have c: "categoryForExt (extname ''report.pdf'') = ''docs''" by code_simp
  have s: "show_nat 9 = ''9''" by code_simp
  from destination_in_category [OF e m _ n] show ?thesis using e n by (simp add: c s)
qed

text \<open>
  Claim C8 fails as stated. A session created with the \<open>fileName\<close>
  \<open>x/../../../server.js\<close> is completed with success; its destination is
  \<open>/srv/app/server.js\<close>, outside the upload directory, and the assembly writes the
  uploaded bytes there. In \<^verbatim>\<open>src/server.js\<close> the same kind of name takes a chunk
  file out of the temporary directory.
\<close>

theorem destination_escapes:
  "fst (snd (upload_complete ex_dirname 9 ex_climbing (JStr ''5-7''))) =
     CompleteOk ''/uploads/others/9-x/../../../server.js'' \<and>
   snd (snd (upload_complete ex_dirname 9 ex_climbing (JStr ''5-7''))) = Some ex_climbing_job \<and>
   finalDest ex_climbing_job = [''srv'', ''app'', ''server.js''] \<and>
   \<not> prefix (UPLOAD_ROOT ex_dirname) (finalDest ex_climbing_job) \<and>
   (case run_assembly ex_dirname (fst (upload_complete ex_dirname 9 ex_climbing (JStr ''5-7''))) ex_climbing_job of
      Inl e \<Rightarrow> False
    | Inr fs2 \<Rightarrow> fs2 [''srv'', ''app'', ''server.js''] = Some (Blob ''pwned'')) \<and>
   chunkDestPath ex_dirname ''../../../etc/cron.d/job'' ''1'' = [''srv'', ''etc'', ''cron.d'', ''job.part1''] \<and>
   \<not> prefix (TMP_DIR ex_dirname) (chunkDestPath ex_dirname ''../../../etc/cron.d/job'' ''1'')"
  by code_simp

section \<open>The download request\<close>

lemma psplit_unsplit:
  "t \<noteq> [] \<Longrightarrow> \<forall>s\<in>set t. CHR ''/'' \<notin> set s \<Longrightarrow> psplit (unsplit t) = t"
proof (induction t rule: unsplit.induct)
  case 1
  then show ?case by simp
next
  case (2 s)
  then show ?case by (simp add: psplit_noslash)
next
  case (3 s v va)
  have "psplit (s @ CHR ''/'' # rest) = s # psplit rest" if "CHR ''/'' \<notin> set s" for rest
    using that by (induction s) (auto simp: psplit_nonempty split: list.splits)
  with 3 show ?case by simp
qed

lemma psplit_dotdot: "psplit (concat (replicate k ''../'') @ s) = replicate k ''..'' @ psplit s"
  by (induction k) (auto split: list.splits simp: psplit_nonempty)

lemma normalizeString_dotdots:
  "normalizeString stk (replicate k ''..'' @ xs) = normalizeString (drop k stk) xs"
proof (induction k arbitrary: stk)
  case 0
  then show ?case by simp
next
  case (Suc k)
  then show ?case by (cases stk) (simp_all add: drop_Suc)
qed

lemma normalizeString_plain:
  "\<forall>s\<in>set t. plain s \<Longrightarrow> normalizeString stk t = rev t @ stk"
  by (induction t arbitrary: stk) (auto simp: plain_def)

lemma path_join_traversal:
  assumes "t \<noteq> []" "\<forall>s\<in>set t. plain s \<and> CHR ''/'' \<notin> set s"
  shows "path_join d [traversal_to d t] = t"
proof -
  have "psplit (traversal_to d t) = replicate (length d) ''..'' @ t"
    using assms by (simp add: traversal_to_def psplit_dotdot psplit_unsplit)
  then show ?thesis
    using assms by (simp add: path_join_def normalizeString_dotdots normalizeString_plain)
qed

lemma traversal_to_last:
  assumes "t \<noteq> []" "\<forall>s\<in>set t. plain s \<and> CHR ''/'' \<notin> set s"
  shows "traversal_to d t \<noteq> [] \<and> \<not> ends_in_sep (traversal_to d t)"
proof -
  have u: "unsplit t \<noteq> [] \<and> last (unsplit t) \<noteq> CHR ''/''"
    using assms
  proof (induction t rule: unsplit.induct)
    case 1
    then show ?case by simp
  next
    case (2 s)
    then have "s \<noteq> []" "CHR ''/'' \<notin> set s" by (auto simp: plain_def)
    then show ?case by (metis last_in_set unsplit.simps(2))
  next
    case (3 s v va)
    then show ?case by simp
  qed
  then show ?thesis by (simp add: traversal_to_def ends_in_sep_def)
qed

text \<open>
  Claim C10, amended. The download request joins the \<open>path\<close> parameter to the
  directory of the server with no check of where the result lies. So every regular
  file of the file system, wherever it lies, is served to the request whose path
  climbs out of the server directory with \<open>..\<close> segments and descends to the file,
  unless the name of the file or of a directory on the way starts with a dot or
  contains a backslash. More generally a path without a separator at its end is
  served when the joined path names a regular file and no segment of it starts
  with a dot or contains a backslash. What is served is
  always the file at the joined path. A request without a path, or with an empty
  one, is answered 400. (A path that names a directory is outside this
  embedding.)
\<close>

theorem download_unrestricted:
  "(missing p \<longrightarrow> download d fs p = Err 400 ''path required'')
   \<and> (\<forall>t. t \<noteq> [] \<and> (\<forall>s\<in>set t. plain s \<and> CHR ''/'' \<notin> set s \<and> \<not> dot_segment s \<and> CHR 0x5C \<notin> set s) \<and> fs t \<noteq> None \<longrightarrow>
        download d fs (Some (traversal_to d t)) = Download t)
   \<and> (\<forall>s. p = Some s \<and> s \<noteq> [] \<and> \<not> ends_in_sep s \<and> fs (path_join d [s]) \<noteq> None \<and>
          (\<forall>x\<in>set (path_join d [s]). \<not> dot_segment x \<and> CHR 0x5C \<notin> set x) \<longrightarrow>
        download d fs p = Download (path_join d [s]))
   \<and> (\<forall>q. download d fs p = Download q \<longrightarrow>
        \<not> missing p \<and> q = path_join d [the p] \<and> fs q \<noteq> None)"
proof -
  have nd: "(\<forall>x\<in>set q. \<not> dot_segment x) \<Longrightarrow> \<not> containsDotFile q" for q
  proof
    assume a: "\<forall>x\<in>set q. \<not> dot_segment x" and c: "containsDotFile q"
    from c have "q \<noteq> []" "dot_segment (last q)"
      by (cases "last q"; simp add: containsDotFile_def dot_segment_def)+
    with a show False using last_in_set by blast
  qed
  have A: "missing p \<longrightarrow> download d fs p = Err 400 ''path required''"
    by (simp add: download_def)
  have C: "\<forall>s. p = Some s \<and> s \<noteq> [] \<and> \<not> ends_in_sep s \<and> fs (path_join d [s]) \<noteq> None \<and>
          (\<forall>x\<in>set (path_join d [s]). \<not> dot_segment x \<and> CHR 0x5C \<notin> set x) \<longrightarrow>
        download d fs p = Download (path_join d [s])"
    using nd by (auto simp: download_def missing_def Let_def)
  have B: "\<forall>t. t \<noteq> [] \<and> (\<forall>s\<in>set t. plain s \<and> CHR ''/'' \<notin> set s \<and> \<not> dot_segment s \<and> CHR 0x5C \<notin> set s) \<and> fs t \<noteq> None \<longrightarrow>
        download d fs (Some (traversal_to d t)) = Download t"
  proof (intro allI impI)
    fix t assume h: "t \<noteq> [] \<and> (\<forall>s\<in>set t. plain s \<and> CHR ''/'' \<notin> set s \<and> \<not> dot_segment s \<and> CHR 0x5C \<notin> set s) \<and> fs t \<noteq> None"
    then have j: "path_join d [traversal_to d t] = t" by (intro path_join_traversal) auto
    from h have l: "traversal_to d t \<noteq> [] \<and> \<not> ends_in_sep (traversal_to d t)"
      by (intro traversal_to_last) auto
    from h have "\<not> containsDotFile t" by (intro nd) auto
    with h j l show "download d fs (Some (traversal_to d t)) = Download t"
      by (auto simp: download_def missing_def)
  qed
  have D: "\<forall>q. download d fs p = Download q \<longrightarrow>
        \<not> missing p \<and> q = path_join d [the p] \<and> fs q \<noteq> None"
    by (auto simp: download_def Let_def split: if_splits)
  from A B C D show ?thesis by blast
qed

theorem download_unrestricted_witness:
  "[''etc'', ''passwd''] \<noteq> [] \<and>
   plain ''etc'' \<and> CHR ''/'' \<notin> set ''etc'' \<and> \<not> dot_segment ''etc'' \<and> CHR 0x5C \<notin> set ''etc'' \<and>
   plain ''passwd'' \<and> CHR ''/'' \<notin> set ''passwd'' \<and> \<not> dot_segment ''passwd'' \<and>
   CHR 0x5C \<notin> set ''passwd'' \<and>
   (Map.empty([''etc'', ''passwd''] \<mapsto> Blob ''root'')) [''etc'', ''passwd''] \<noteq> None \<and>
   download ex_dirname (Map.empty([''etc'', ''passwd''] \<mapsto> Blob ''root'')) (Some ''../../etc/passwd'')
     = Download [''etc'', ''passwd''] \<and>
   \<not> prefix (UPLOAD_ROOT ex_dirname) [''etc'', ''passwd''] \<and>
   missing (Some []) \<and>
   download ex_dirname (Map.empty([''etc'', ''passwd''] \<mapsto> Blob ''root'')) (Some []) = Err 400 ''path required''"
proof -
  let ?fs = "Map.empty([''etc'', ''passwd''] \<mapsto> Blob ''root'')"
  have t: "traversal_to ex_dirname [''etc'', ''passwd''] = ''../../etc/passwd''" by code_simp
  have h: "[''etc'', ''passwd''] \<noteq> [] \<and>
           (\<forall>s\<in>set [''etc'', ''passwd'']. plain s \<and> CHR ''/'' \<notin> set s \<and> \<not> dot_segment s \<and> CHR 0x5C \<notin> set s) \<and>
           ?fs [''etc'', ''passwd''] \<noteq> None"
    by (simp add: plain_def dot_segment_def)
  have o: "\<not> prefix (UPLOAD_ROOT ex_dirname) [''etc'', ''passwd'']" by code_simp
  have e: "missing (Some [])" by (simp add: missing_def)
  have "download ex_dirname ?fs (Some (traversal_to ex_dirname [''etc'', ''passwd''])) = Download [''etc'', ''passwd'']"
    using download_unrestricted [of "Some (traversal_to ex_dirname [''etc'', ''passwd''])" ex_dirname ?fs] h
    by blast
  moreover have "download ex_dirname ?fs (Some []) = Err 400 ''path required''"
    using download_unrestricted [of "Some []" ex_dirname ?fs] e by blast
  ultimately show ?thesis using h o e by (simp add: t plain_def dot_segment_def)
qed

text \<open>
  Claim C10 fails as stated in its last part: 404 for a path that does not exist
  is not the only failure that the request reports. A request without the \<open>path\<close>
  parameter, or with an empty one, is answered 400 \<open>path required\<close>; and the
  existing file \<open>/srv/app/.env\<close> is not served, for \<open>res.download\<close> answers 404 for
  a dot file. A path that does not exist is answered 404 \<open>not found\<close>.
\<close>

theorem download_other_failures:
  "download ex_dirname (Map.empty([''srv'', ''app'', ''.env''] \<mapsto> Blob ''KEY=1'')) None
     = Err 400 ''path required'' \<and>
   download ex_dirname (Map.empty([''srv'', ''app'', ''.env''] \<mapsto> Blob ''KEY=1'')) (Some [])
     = Err 400 ''path required'' \<and>
   path_join ex_dirname [''.env''] = [''srv'', ''app'', ''.env''] \<and>
   (Map.empty([''srv'', ''app'', ''.env''] \<mapsto> Blob ''KEY=1'')) (path_join ex_dirname [''.env'']) =
     Some (Blob ''KEY=1'') \<and>
   download ex_dirname (Map.empty([''srv'', ''app'', ''.env''] \<mapsto> Blob ''KEY=1'')) (Some ''.env'')
     = Err 404 ''Not Found'' \<and>
   download ex_dirname (Map.empty([''srv'', ''app'', ''.env''] \<mapsto> Blob ''KEY=1'')) (Some ''../../etc/shadow'')
     = Err 404 ''not found''"
  by code_simp

section \<open>The assembly\<close>

lemma assembly_loop_keeps:
  assumes "assembly_loop d fs j i = Inr fs'"
    and "\<forall>k. i \<le> k \<and> k \<le> jobTotal j \<longrightarrow> chunkPath d (jobUploadId j) (show_int k) \<noteq> p"
    and "p \<noteq> finalDest j"
  shows "fs' p = fs p"
  using assms
proof (induction d fs j i rule: assembly_loop.induct)
  case (1 d fs j i)
  show ?case
  proof (cases "i \<le> jobTotal j")
    case False
    with "1.prems"(1) show ?thesis by (subst (asm) assembly_loop.simps) simp
  next
    case True
    with "1.prems"(1) obtain fsn where
      pn: "pipe_chunk fs (finalDest j) (chunkPath d (jobUploadId j) (show_int i)) = Some fsn"
      and rn: "assembly_loop d fsn j (i + 1) = Inr fs'"
      by (subst (asm) assembly_loop.simps) (auto split: option.splits)
    from pn "1.prems"(2,3) True have "fsn p = fs p"
      by (auto simp: pipe_chunk_def stream_write_def split: option.splits)
    moreover have "fs' p = fsn p"
      using "1.IH" [OF True pn rn] "1.prems"(2,3) by auto
    ultimately show ?thesis by simp
  qed
qed

lemma assembly_loop_concat:
  assumes "\<forall>k. i \<le> k \<and> k \<le> jobTotal j \<longrightarrow> fs (chunkPath d (jobUploadId j) (show_int k)) = Some (b k)"
    and "fs (finalDest j) = Some (Blob acc)"
    and "\<forall>k. i \<le> k \<and> k \<le> jobTotal j \<longrightarrow> chunkPath d (jobUploadId j) (show_int k) \<noteq> finalDest j"
  shows "\<exists>fs'. assembly_loop d fs j i = Inr fs' \<and>
           fs' (finalDest j) = Some (Blob (acc @ concat (map (\<lambda>k. file_bytes (b k)) [i..jobTotal j]))) \<and>
           (\<forall>k. i \<le> k \<and> k \<le> jobTotal j \<longrightarrow> fs' (chunkPath d (jobUploadId j) (show_int k)) = None)"
  using assms
proof (induction d fs j i arbitrary: acc rule: assembly_loop.induct)
  case (1 d fs j i)
  let ?cp = "\<lambda>k. chunkPath d (jobUploadId j) (show_int k)"
  show ?case
  proof (cases "i \<le> jobTotal j")
    case False
    then have "assembly_loop d fs j i = Inr fs" by (subst assembly_loop.simps) simp
    with False "1.prems"(2) show ?thesis by auto
  next
    case True
    let ?fs1 = "(fs(finalDest j \<mapsto> Blob (acc @ file_bytes (b i))))(?cp i := None)"
    have ci: "fs (?cp i) = Some (b i)" using "1.prems"(1) True by simp
    have ne: "?cp i \<noteq> finalDest j" using "1.prems"(3) True by simp
    have pc: "pipe_chunk fs (finalDest j) (?cp i) = Some ?fs1"
      using ci "1.prems"(2) by (simp add: pipe_chunk_def stream_write_def)
    have unf: "assembly_loop d fs j i = assembly_loop d ?fs1 j (i + 1)"
      using True pc by (subst assembly_loop.simps) simp
    have inj: "?cp k \<noteq> ?cp i" if "i + 1 \<le> k" for k
    proof
      assume "?cp k = ?cp i"
      then have "show_int k = show_int i"
        using chunkPath_inj [of "show_int k" "show_int i" d "jobUploadId j"] show_int_no_slash by simp
      then have "k = i" by (rule show_int_inj)
      with that show False by simp
    qed
    have a: "\<forall>k. i + 1 \<le> k \<and> k \<le> jobTotal j \<longrightarrow> ?fs1 (?cp k) = Some (b k)"
      using "1.prems"(1,3) inj by auto
    have b: "?fs1 (finalDest j) = Some (Blob (acc @ file_bytes (b i)))" using ne by auto
    have c: "\<forall>k. i + 1 \<le> k \<and> k \<le> jobTotal j \<longrightarrow> ?cp k \<noteq> finalDest j"
      using "1.prems"(3) by auto
    from "1.IH" [OF True pc a b c]
    obtain fs' where r: "assembly_loop d ?fs1 j (i + 1) = Inr fs'"
      and dst: "fs' (finalDest j) =
                 Some (Blob ((acc @ file_bytes (b i)) @ concat (map (\<lambda>k. file_bytes (b k)) [i + 1..jobTotal j])))"
      and gone: "\<forall>k. i + 1 \<le> k \<and> k \<le> jobTotal j \<longrightarrow> fs' (?cp k) = None"
      by blast
    have "fs' (?cp i) = None"
    proof -
      have "fs' (?cp i) = ?fs1 (?cp i)"
        using assembly_loop_keeps [OF r, of "?cp i"] inj ne by auto
      then show ?thesis by simp
    qed
    with gone have g: "\<forall>k. i \<le> k \<and> k \<le> jobTotal j \<longrightarrow> fs' (?cp k) = None"
      by (metis add1_zle_eq order_le_less)
    have "[i..jobTotal j] = i # [i + 1..jobTotal j]" using True by (simp add: upto_rec1)
    with r dst g unf show ?thesis by simp
  qed
qed

lemma chunkPath_show_int_inj:
  "chunkPath d u (show_int k) = chunkPath d u (show_int i) \<Longrightarrow> k = i"
  using chunkPath_inj [of "show_int k" "show_int i" d u] show_int_no_slash show_int_inj by blast

lemma register_one:
  fixes t :: nat and r :: "nat list" and i :: int and c :: content
  assumes "readJSON fs (manifestPath d uid) = Some m" "uid \<noteq> []"
  defines "fs1 \<equiv> fst (upload_chunk d t r fs (Some uid) (Some (show_int i)) (Some c))"
  shows "readJSON fs1 (manifestPath d uid) = Some (register_index m (show_int i))"
    and "fs1 (chunkPath d uid (show_int i)) = Some c"
    and "k \<noteq> i \<Longrightarrow> fs1 (chunkPath d uid (show_int k)) = fs (chunkPath d uid (show_int k))"
proof -
  have eq: "fs1 = ((fs(multer_path d t r := None))(chunkPath d uid (show_int i) \<mapsto> c))
               (manifestPath d uid \<mapsto> ManifestJSON (register_index m (show_int i)))"
    unfolding fs1_def using upload_chunk_ok [OF assms(1,2) show_int_nonempty, where now = t and rnd = r and c = c and i1 = i] by simp
  have neq: "chunkPath d uid (show_int x) \<noteq> manifestPath d uid" for x
    by (rule chunkPath_neq_manifestPath) (rule show_int_no_slash)
  have mneq: "multer_path d t r \<noteq> chunkPath d uid (show_int x)" for x
    by (rule multer_path_neq) (rule show_int_no_slash)
  show "readJSON fs1 (manifestPath d uid) = Some (register_index m (show_int i))"
    by (simp add: eq readJSON_upd_same)
  show "fs1 (chunkPath d uid (show_int i)) = Some c"
    using neq [of i] by (simp add: eq)
  show "fs1 (chunkPath d uid (show_int k)) = fs (chunkPath d uid (show_int k))" if "k \<noteq> i"
    using that neq [of k] mneq [of k] chunkPath_show_int_inj [of d uid k i] by (auto simp: eq)
qed

lemma register_all_inv:
  assumes "readJSON fs (manifestPath d uid) = Some m" "uid \<noteq> []"
  shows "\<exists>m'. readJSON (register_all d uid b tm rs order fs) (manifestPath d uid) = Some m' \<and>
           fileName m' = fileName m \<and> totalChunks m' = totalChunks m \<and>
           set (uploadedChunks m') = set (uploadedChunks m) \<union> Some ` set order \<and>
           (distinct (uploadedChunks m) \<longrightarrow> distinct (uploadedChunks m')) \<and>
           (\<forall>k. k \<in> set order \<or> fs (chunkPath d uid (show_int k)) = Some (b k) \<longrightarrow>
                register_all d uid b tm rs order fs (chunkPath d uid (show_int k)) = Some (b k))"
  using assms(1)
proof (induction order arbitrary: fs m)
  case Nil
  then show ?case by simp
next
  case (Cons i order)
  let ?fs1 = "fst (upload_chunk d (tm i) (rs i) fs (Some uid) (Some (show_int i)) (Some (b i)))"
  let ?m1 = "register_index m (show_int i)"
  note one = register_one [OF Cons.prems assms(2), where t = "tm i" and r = "rs i" and i = i and c = "b i"]
  have L: "uploadedChunks ?m1 =
             (if Some i \<in> set (uploadedChunks m) then uploadedChunks m else uploadedChunks m @ [Some i])"
    by (rule register_index_int) (rule parseInt_show_int)
  from Cons.IH [OF one(1)]
  obtain m' where m': "readJSON (register_all d uid b tm rs order ?fs1) (manifestPath d uid) = Some m'"
    and f: "fileName m' = fileName ?m1" "totalChunks m' = totalChunks ?m1"
    and s: "set (uploadedChunks m') = set (uploadedChunks ?m1) \<union> Some ` set order"
    and dd: "distinct (uploadedChunks ?m1) \<longrightarrow> distinct (uploadedChunks m')"
    and ch: "\<forall>k. k \<in> set order \<or> ?fs1 (chunkPath d uid (show_int k)) = Some (b k) \<longrightarrow>
                register_all d uid b tm rs order ?fs1 (chunkPath d uid (show_int k)) = Some (b k)"
    by blast
  have s': "set (uploadedChunks m') = set (uploadedChunks m) \<union> Some ` set (i # order)"
    using s L by auto
  have d': "distinct (uploadedChunks m) \<longrightarrow> distinct (uploadedChunks m')"
    using dd L by simp
  have ch': "\<forall>k. k \<in> set (i # order) \<or> fs (chunkPath d uid (show_int k)) = Some (b k) \<longrightarrow>
                register_all d uid b tm rs order ?fs1 (chunkPath d uid (show_int k)) = Some (b k)"
  proof (intro allI impI)
    fix k assume h: "k \<in> set (i # order) \<or> fs (chunkPath d uid (show_int k)) = Some (b k)"
    have "k \<in> set order \<or> ?fs1 (chunkPath d uid (show_int k)) = Some (b k)"
    proof (cases "k = i")
      case True
      then show ?thesis using one(2) by simp
    next
      case False
      then show ?thesis using h one(3) [of k] by auto
    qed
    with ch show "register_all d uid b tm rs order ?fs1 (chunkPath d uid (show_int k)) = Some (b k)"
      by blast
  qed
  from m' f s' d' ch' show ?case
    by (simp add: register_index_fields) 
qed

lemma destination_not_chunk:
  assumes "CHR ''/'' \<notin> set uid" "CHR ''/'' \<notin> set name" "CHR ''/'' \<notin> set ci"
  shows "chunkPath d uid ci \<noteq> destination d now name"
proof -
  have "destination d now name = d @ [''uploads'', categoryForExt (extname name), show_nat now @ ''-'' @ name]"
    unfolding destination_def using final_dest_plain_name [OF assms(2)] by (simp add: UPLOAD_ROOT_eq)
  moreover have "session_dir d uid = d @ [''uploads'', ''tmp'']"
    using assms(1) by (simp add: session_dir_def psplit_noslash TMP_DIR_eq)
  then have "chunkPath d uid ci = d @ [''uploads'', ''tmp'', uid @ ''.part'' @ ci]"
    using assms(1,3) by (simp add: chunkPath_eq psplit_noslash)
  ultimately show ?thesis
    using categoryForExt_cases [of "extname name"] by auto
qed

lemma session_assembly:
  assumes "readJSON fs (manifestPath d uid) = Some m"
    and "fileName m = JStr name" "totalChunks m = Some n" "uploadedChunks m = []"
    and "uid \<noteq> []" "0 \<le> n"
    and "set order = {1..n}"
    and "CHR ''/'' \<notin> set uid" "CHR ''/'' \<notin> set name" "\<not> has_nul (destination d now name)"
  shows "upload_complete d now (register_all d uid b tm rs order fs) (JStr uid) =
           ((register_all d uid b tm rs order fs)(manifestPath d uid := None),
            CompleteOk (''/uploads/'' @ categoryForExt (extname name) @ ''/'' @ show_nat now @ ''-'' @ name),
            Some \<lparr>finalDest = destination d now name, jobUploadId = uid, jobTotal = n\<rparr>)
         \<and> (\<exists>fs3. run_assembly d ((register_all d uid b tm rs order fs)(manifestPath d uid := None))
                     \<lparr>finalDest = destination d now name, jobUploadId = uid, jobTotal = n\<rparr> = Inr fs3 \<and>
                   fs3 (destination d now name) =
                     Some (Blob (concat (map (\<lambda>k. file_bytes (b k)) [1..n]))))"
proof -
  have nc: "\<forall>k. 1 \<le> k \<and> k \<le> n \<longrightarrow> chunkPath d uid (show_int k) \<noteq> destination d now name"
    using destination_not_chunk [OF assms(8,9) show_int_no_slash] by blast
  let ?fs1 = "register_all d uid b tm rs order fs"
  let ?mp = "manifestPath d uid"
  let ?dest = "destination d now name"
  let ?j = "\<lparr>finalDest = ?dest, jobUploadId = uid, jobTotal = n\<rparr>"
  from register_all_inv [OF assms(1,5), of b tm rs order]
  obtain m' where m': "readJSON ?fs1 ?mp = Some m'"
    and f: "fileName m' = fileName m" "totalChunks m' = totalChunks m"
    and s: "set (uploadedChunks m') = set (uploadedChunks m) \<union> Some ` set order"
    and dd: "distinct (uploadedChunks m) \<longrightarrow> distinct (uploadedChunks m')"
    and ch: "\<forall>k. k \<in> set order \<or> fs (chunkPath d uid (show_int k)) = Some (b k) \<longrightarrow>
                ?fs1 (chunkPath d uid (show_int k)) = Some (b k)"
    by blast
  have "distinct (uploadedChunks m')" using dd assms(4) by simp
  then have "length (uploadedChunks m') = card (set (uploadedChunks m'))"
    by (simp add: distinct_card)
  also have "\<dots> = card (Some ` {1..n})" using s assms(4,7) by simp
  also have "\<dots> = card {1..n}" by (simp add: card_image)
  also have "\<dots> = nat n" by simp
  finally have len: "int (length (uploadedChunks m')) = n" using assms(6) by simp
  have chunks: "\<forall>k. 1 \<le> k \<and> k \<le> n \<longrightarrow> ?fs1 (chunkPath d uid (show_int k)) = Some (b k)"
    using ch assms(7) by auto
  have A: "upload_complete d now ?fs1 (JStr uid) =
           (?fs1(?mp := None),
            CompleteOk (''/uploads/'' @ categoryForExt (extname name) @ ''/'' @ show_nat now @ ''-'' @ name),
            Some ?j)"
    using upload_complete_ok [of "JStr uid" ?fs1 d m' name now] m' f assms(2,3,5,10) len chunks
    by (simp add: destination_def)
  let ?fs2 = "(?fs1(?mp := None))(?dest \<mapsto> Blob [])"
  have neq: "chunkPath d uid (show_int k) \<noteq> ?mp" for k
    by (rule chunkPath_neq_manifestPath) (rule show_int_no_slash)
  have c2: "\<forall>k. 1 \<le> k \<and> k \<le> jobTotal ?j \<longrightarrow> ?fs2 (chunkPath d (jobUploadId ?j) (show_int k)) = Some (b k)"
    using chunks nc neq by auto
  have d2: "?fs2 (finalDest ?j) = Some (Blob [])" by simp
  have n2: "\<forall>k. 1 \<le> k \<and> k \<le> jobTotal ?j \<longrightarrow> chunkPath d (jobUploadId ?j) (show_int k) \<noteq> finalDest ?j"
    using nc by simp
  from assembly_loop_concat [OF c2 d2 n2]
  obtain fs3 where r3: "assembly_loop d ?fs2 ?j 1 = Inr fs3"
    and d3: "fs3 (finalDest ?j) = Some (Blob ([] @ concat (map (\<lambda>k. file_bytes (b k)) [1..jobTotal ?j])))"
    by blast
  have "run_assembly d (?fs1(?mp := None)) ?j = Inr fs3"
    unfolding run_assembly_def using r3 by simp
  moreover have "fs3 ?dest = Some (Blob (concat (map (\<lambda>k. file_bytes (b k)) [1..n])))"
    using d3 by simp
  ultimately have B: "\<exists>fs3. run_assembly d (?fs1(?mp := None)) ?j = Inr fs3 \<and>
                   fs3 ?dest = Some (Blob (concat (map (\<lambda>k. file_bytes (b k)) [1..n])))"
    by blast
  from A B show ?thesis by blast
qed

section \<open>The inline assembly of the session-less server\<close>

lemma split_on_no_dot: "CHR ''.'' \<notin> set t \<Longrightarrow> split_on ''.part'' t = [t]"
proof (induction t)
  case Nil
  then show ?case by (simp add: split_on.simps(1))
next
  case (Cons c t)
  then have np: "\<not> (''.part'' \<noteq> [] \<and> prefix ''.part'' (c # t))" by auto
  have "split_on ''.part'' (c # t) = (case split_on ''.part'' t of [] \<Rightarrow> [[c]] | x # xs \<Rightarrow> (c # x) # xs)"
    by (subst split_on.simps(2)) (simp only: np if_False)
  with Cons show ?case by simp
qed

lemma no_part_at_head:
  assumes "\<not> sublist ''.part'' (c # f)"
  shows "\<not> prefix ''.part'' ((c # f) @ ''.part'' @ t)"
proof
  assume p: "prefix ''.part'' ((c # f) @ ''.part'' @ t)"
  show False
  proof (cases "5 \<le> length (c # f)")
    case True
    have pf: "prefix (c # f) ((c # f) @ ''.part'' @ t)" by (rule prefixI) (rule refl)
    have "length ''.part'' \<le> length (c # f)" using True by simp
    with p pf have "prefix ''.part'' (c # f)" by (rule prefix_length_prefix)
    then have "sublist ''.part'' (c # f)" by (rule prefix_imp_sublist)
    with assms show False by contradiction
  next
    case False
    from p obtain zs where eq: "(c # f) @ ''.part'' @ t = ''.part'' @ zs" unfolding prefix_def by blast
    have a: "((c # f) @ (CHR ''.'' # (''part'' @ t))) ! length (c # f) = CHR ''.''"
      by (rule nth_append_length)
    have b: "(c # f) @ (CHR ''.'' # (''part'' @ t)) = CHR ''.'' # CHR ''p'' # CHR ''a'' # CHR ''r'' # CHR ''t'' # zs"
      using eq by simp
    from False have "length f < 4" by simp
    then have "length f = 0 \<or> length f = 1 \<or> length f = 2 \<or> length f = 3" by arith
    then show False
    proof (elim disjE)
      assume "length f = 0" with a show False unfolding b by simp
    next
      assume "length f = 1" with a show False unfolding b by simp
    next
      assume "length f = 2" with a show False unfolding b by simp
    next
      assume "length f = 3" with a show False unfolding b by (simp add: numeral_3_eq_3)
    qed
  qed
qed

lemma split_on_name:
  assumes "\<not> sublist ''.part'' f" "CHR ''.'' \<notin> set t"
  shows "split_on ''.part'' (f @ ''.part'' @ t) = [f, t]"
  using assms(1)
proof (induction f)
  case Nil
  have "split_on ''.part'' (''.part'' @ t) = [] # split_on ''.part'' t"
    by (simp add: split_on.simps(2))
  then show ?case using split_on_no_dot [OF assms(2)] by simp
next
  case (Cons c f)
  from Cons.prems have nf: "\<not> sublist ''.part'' f" by (auto simp: sublist_Cons_right)
  have "\<not> prefix ''.part'' ((c # f) @ ''.part'' @ t)" by (rule no_part_at_head [OF Cons.prems])
  then have np: "\<not> (''.part'' \<noteq> [] \<and> prefix ''.part'' (c # (f @ ''.part'' @ t)))"
    by (simp only: append_Cons) simp
  have "split_on ''.part'' (c # (f @ ''.part'' @ t)) =
               (case split_on ''.part'' (f @ ''.part'' @ t) of [] \<Rightarrow> [[c]] | x # xs \<Rightarrow> (c # x) # xs)"
    by (subst split_on.simps(2)) (simp only: np if_False)
  also have "\<dots> = [c # f, t]" by (simp only: Cons.IH [OF nf]) simp
  finally show ?case by (simp only: append_Cons)
qed

lemma show_int_no_dot: "CHR ''.'' \<notin> set (show_int k)"
  using show_nat_no_x(4) by (simp add: show_int_def)

lemma part_index_name:
  assumes "\<not> sublist ''.part'' f"
  shows "part_index (part_name f k) = Some k"
proof -
  have "part_index (part_name f k) =
          (case [f, show_int k] of x # y # ys \<Rightarrow> parseInt_str y | _ \<Rightarrow> None)"
    unfolding part_index_def part_name_def
    by (simp only: split_on_name [OF assms show_int_no_dot])
  then show ?thesis by (simp add: parseInt_show_int)
qed

lemma part_name_inj: "part_name f k = part_name f j \<Longrightarrow> k = j"
  using show_int_inj by (simp add: part_name_def)

lemma insort_parts_numeric:
  assumes "part_index a = Some x" "\<forall>b\<in>set bs. part_index b \<noteq> None"
  shows "insort_parts a bs = insort_key (\<lambda>x. the (part_index x)) a bs"
  using assms(2)
proof (induction bs)
  case Nil
  then show ?case by simp
next
  case (Cons b bs)
  then obtain y where y: "part_index b = Some y" by auto
  have c: "compare_parts a b = Some (x - y)" by (simp add: compare_parts_def assms(1) y)
  from Cons have IH: "insort_parts a bs = insort_key (\<lambda>x. the (part_index x)) a bs" by simp
  show ?case
  proof (cases "x \<le> y")
    case True
    then show ?thesis by (simp add: c assms(1) y)
  next
    case False
    then show ?thesis by (simp add: c assms(1) y IH)
  qed
qed
lemma sort_parts_numeric:
  "\<forall>a\<in>set xs. part_index a \<noteq> None \<Longrightarrow> sort_parts xs = sort_key (\<lambda>x. the (part_index x)) xs"
proof (induction xs)
  case Nil
  then show ?case by (simp add: sort_parts_def)
next
  case (Cons a xs)
  then have "sort_parts xs = sort_key (\<lambda>x. the (part_index x)) xs" by simp
  moreover have "\<forall>b\<in>set (sort_key (\<lambda>x. the (part_index x)) xs). part_index b \<noteq> None"
    using Cons.prems by simp
  ultimately show ?case
    using Cons.prems insort_parts_numeric [of a _ "sort_key (\<lambda>x. the (part_index x)) xs"]
    by (auto simp: sort_parts_def)
qed

lemma sort_parts_names:
  assumes "distinct ks" "\<not> sublist ''.part'' f"
  shows "sort_parts (map (part_name f) ks) =
           map (part_name f) (sort ks)"
proof -
  let ?name = "\<lambda>k. part_name f k"
  let ?key = "\<lambda>x. the (part_index x)"
  have key: "?key (?name k) = k" for k by (simp add: part_index_name [OF assms(2)])
  have num: "\<forall>a\<in>set (map ?name ks). part_index a \<noteq> None"
    by (auto simp: part_index_name [OF assms(2)])
  have "sort_key ?key (map ?name ks) = map ?name (sort ks)"
  proof (rule sort_key_inj_key_eq)
    show "mset (map ?name ks) = mset (map ?name (sort ks))" by simp
    show "inj_on ?key (set (map ?name ks))"
      by (auto simp: inj_on_def key)
    have "map ?key (map ?name (sort ks)) = sort ks" by (simp add: key comp_def)
    then show "sorted (map ?key (map ?name (sort ks)))" by simp
  qed
  with sort_parts_numeric [OF num] show ?thesis by simp
qed

lemma part_path:
  assumes "CHR ''/'' \<notin> set f"
  shows "path_join (TMP_DIR d) [part_name f k] = TMP_DIR d @ [part_name f k]"
proof -
  have "session_dir d f = TMP_DIR d" using assms by (simp add: session_dir_def psplit_noslash)
  then show ?thesis
    using chunkPath_eq [OF show_int_no_slash, of d f k] assms
    by (simp add: chunkPath_def psplit_noslash part_name_def)
qed

lemma write_parts_removes:
  "write_parts tmp ps (disk, acc) = (disk', data, ok) \<Longrightarrow> map_of disk q = None \<Longrightarrow>
     map_of disk' q = None"
proof (induction ps arbitrary: disk acc)
  case Nil
  then show ?case by simp
next
  case (Cons p ps)
  show ?case
  proof (cases "map_of disk (path_join tmp [p])")
    case None
    with Cons.prems show ?thesis by simp
  next
    case (Some c)
    with Cons.prems have "write_parts tmp ps (AList.delete (path_join tmp [p]) disk, acc @ file_bytes c) =
                            (disk', data, ok)"
      by simp
    moreover have "map_of (AList.delete (path_join tmp [p]) disk) q = None"
      using Cons.prems(2) by (simp add: delete_conv)
    ultimately show ?thesis by (rule Cons.IH)
  qed
qed

lemma write_parts_names:
  assumes "CHR ''/'' \<notin> set f"
  shows "distinct js \<Longrightarrow>
     \<forall>k\<in>set js. map_of disk (TMP_DIR d @ [part_name f k]) = Some (b k) \<Longrightarrow>
     \<exists>disk'. write_parts (TMP_DIR d) (map (part_name f) js) (disk, acc) =
               (disk', acc @ concat (map (\<lambda>k. file_bytes (b k)) js), True) \<and>
             (\<forall>k\<in>set js. map_of disk' (TMP_DIR d @ [part_name f k]) = None)"
proof (induction js arbitrary: disk acc)
  case Nil
  then show ?case by simp
next
  case (Cons j js)
  let ?p = "\<lambda>k. TMP_DIR d @ [part_name f k]"
  let ?disk1 = "AList.delete (?p j) disk"
  have inj: "?p k = ?p j \<Longrightarrow> k = j" for k using part_name_inj by simp
  have "\<forall>k\<in>set js. map_of ?disk1 (?p k) = Some (b k)"
    using Cons.prems inj by (auto simp: delete_conv)
  with Cons.IH [of ?disk1 "acc @ file_bytes (b j)"] Cons.prems(1)
  obtain disk' where w: "write_parts (TMP_DIR d) (map (part_name f) js)
                           (?disk1, acc @ file_bytes (b j)) =
               (disk', (acc @ file_bytes (b j)) @ concat (map (\<lambda>k. file_bytes (b k)) js), True)"
    and g: "\<forall>k\<in>set js. map_of disk' (?p k) = None"
    by auto
  have p: "path_join (TMP_DIR d) [part_name f j] = ?p j" by (rule part_path [OF assms])
  have "write_parts (TMP_DIR d) (map (part_name f) (j # js)) (disk, acc) =
          write_parts (TMP_DIR d) (map (part_name f) js) (?disk1, acc @ file_bytes (b j))"
    using Cons.prems(2) by (simp add: p)
  with w have "write_parts (TMP_DIR d) (map (part_name f) (j # js)) (disk, acc) =
                 (disk', acc @ concat (map (\<lambda>k. file_bytes (b k)) (j # js)), True)"
    by simp
  moreover have "map_of disk' (?p j) = None"
    by (rule write_parts_removes [OF w]) (simp add: delete_conv)
  ultimately show ?case using g by auto
qed


text \<open>
  The spec's round trip on \<^verbatim>\<open>src/server.js\<close>: the chunks \<open>AB\<close>, \<open>CD\<close> and \<open>EF\<close> of
  \<open>a.txt\<close> arrive in the order 3, 1, 2. The request that brings the last of them
  hands \<open>ABCDEF\<close> to the write stream and unlinks the parts. When the runtime has
  opened the stream by the time of the rename, the request is answered with success
  and the bytes reach the file in the category directory; when it has not, the
  rename throws, the request is answered with status 500, and the bytes reach the
  file \<open>a.txt\<close> of the temporary directory.
\<close>

lemma sessionless_round_trip:
  "fst (snd (ex_last_chunk True)) = Assembled ''/uploads/docs/9-a.txt'' \<and>
   stream_flush (fst (ex_last_chunk True)) (snd (snd (ex_last_chunk True))) =
     [([''srv'', ''app'', ''uploads'', ''docs'', ''9-a.txt''], Blob ''ABCDEF'')] \<and>
   fst (snd (ex_last_chunk False)) = Err 500 ''ENOENT'' \<and>
   stream_flush (fst (ex_last_chunk False)) (snd (snd (ex_last_chunk False))) =
     [([''srv'', ''app'', ''uploads'', ''tmp'', ''a.txt''], Blob ''ABCDEF'')]"
  by code_simp

text \<open>
  Claim C1, amended. In the session server, take a session that has just been
  created for \<open>n\<close> chunks under an identifier without path separator, and let a
  client register the chunks in any order, as long as the requests cover the
  indices \<open>1..n\<close> (an index may be sent again), chunk \<open>k\<close> with the payload \<open>b k\<close>.
  If the \<open>fileName\<close> contains no path separator and no NUL character, then the
  completion request is answered with success and the assembly it starts runs to
  its end and leaves, at the destination in the category directory, the
  concatenation of the payloads in ascending index order. In \<^verbatim>\<open>src/server.js\<close>,
  when the temporary directory holds the parts of the file \<open>f\<close> for the distinct
  indices \<open>ks\<close>, sent in decimal, in whatever order the directory lists them, and
  \<open>f\<close> contains neither \<open>.part\<close> nor a path separator, the sort puts the parts in
  ascending index order and the loop hands the concatenation of their contents in
  that order to the write stream.
\<close>

theorem assembly_in_index_order:
  "(readJSON fs (manifestPath d uid) = Some m \<and> fileName m = JStr name \<and> totalChunks m = Some n \<and>
    uploadedChunks m = [] \<and> uid \<noteq> [] \<and> 0 \<le> n \<and> safe_integer n \<and> set order = {1..n} \<and>
    CHR ''/'' \<notin> set uid \<and> CHR ''/'' \<notin> set name \<and> \<not> has_nul (destination d now name) \<longrightarrow>
      upload_complete d now (register_all d uid b tm rs order fs) (JStr uid) =
        ((register_all d uid b tm rs order fs)(manifestPath d uid := None),
         CompleteOk (''/uploads/'' @ categoryForExt (extname name) @ ''/'' @ show_nat now @ ''-'' @ name),
         Some \<lparr>finalDest = destination d now name, jobUploadId = uid, jobTotal = n\<rparr>) \<and>
      (\<exists>fs3. run_assembly d ((register_all d uid b tm rs order fs)(manifestPath d uid := None))
                \<lparr>finalDest = destination d now name, jobUploadId = uid, jobTotal = n\<rparr> = Inr fs3 \<and>
              fs3 (destination d now name) =
                Some (Blob (concat (map (\<lambda>k. file_bytes (b k)) [1..n])))))
   \<and> (distinct ks \<and> (\<forall>k\<in>set ks. safe_integer k) \<and> \<not> sublist ''.part'' f \<and> CHR ''/'' \<notin> set f \<and>
       (\<forall>k\<in>set ks. map_of disk (TMP_DIR d @ [part_name f k]) = Some (c k)) \<longrightarrow>
         sort_parts (map (part_name f) ks) = map (part_name f) (sort ks) \<and>
         (\<exists>disk'. write_parts (TMP_DIR d) (sort_parts (map (part_name f) ks)) (disk, []) =
                    (disk', concat (map (\<lambda>k. file_bytes (c k)) (sort ks)), True)))"
proof (intro conjI impI)
  assume h: "readJSON fs (manifestPath d uid) = Some m \<and> fileName m = JStr name \<and> totalChunks m = Some n \<and>
    uploadedChunks m = [] \<and> uid \<noteq> [] \<and> 0 \<le> n \<and> safe_integer n \<and> set order = {1..n} \<and>
    CHR ''/'' \<notin> set uid \<and> CHR ''/'' \<notin> set name \<and> \<not> has_nul (destination d now name)"
  then have a: "readJSON fs (manifestPath d uid) = Some m" "fileName m = JStr name"
    "totalChunks m = Some n" "uploadedChunks m = []" "uid \<noteq> []" "0 \<le> n" "set order = {1..n}"
    "CHR ''/'' \<notin> set uid" "CHR ''/'' \<notin> set name" "\<not> has_nul (destination d now name)"
    by simp_all
  note S = session_assembly [OF a, of b tm rs]
  from S show "upload_complete d now (register_all d uid b tm rs order fs) (JStr uid) =
        ((register_all d uid b tm rs order fs)(manifestPath d uid := None),
         CompleteOk (''/uploads/'' @ categoryForExt (extname name) @ ''/'' @ show_nat now @ ''-'' @ name),
         Some \<lparr>finalDest = destination d now name, jobUploadId = uid, jobTotal = n\<rparr>)"
    by (rule conjunct1)
  from S show "\<exists>fs3. run_assembly d ((register_all d uid b tm rs order fs)(manifestPath d uid := None))
                \<lparr>finalDest = destination d now name, jobUploadId = uid, jobTotal = n\<rparr> = Inr fs3 \<and>
              fs3 (destination d now name) =
                Some (Blob (concat (map (\<lambda>k. file_bytes (b k)) [1..n])))"
    by (rule conjunct2)
next
  assume h: "distinct ks \<and> (\<forall>k\<in>set ks. safe_integer k) \<and> \<not> sublist ''.part'' f \<and> CHR ''/'' \<notin> set f \<and>
       (\<forall>k\<in>set ks. map_of disk (TMP_DIR d @ [part_name f k]) = Some (c k))"
  then show "sort_parts (map (part_name f) ks) = map (part_name f) (sort ks)"
    by (intro sort_parts_names) simp_all
next
  assume h: "distinct ks \<and> (\<forall>k\<in>set ks. safe_integer k) \<and> \<not> sublist ''.part'' f \<and> CHR ''/'' \<notin> set f \<and>
       (\<forall>k\<in>set ks. map_of disk (TMP_DIR d @ [part_name f k]) = Some (c k))"
  then have s: "sort_parts (map (part_name f) ks) = map (part_name f) (sort ks)"
    by (intro sort_parts_names) simp_all
  from h have "CHR ''/'' \<notin> set f" "distinct (sort ks)"
    "\<forall>k\<in>set (sort ks). map_of disk (TMP_DIR d @ [part_name f k]) = Some (c k)"
    by simp_all
  from write_parts_names [OF this, of "[]"]
  show "\<exists>disk'. write_parts (TMP_DIR d) (sort_parts (map (part_name f) ks)) (disk, []) =
                    (disk', concat (map (\<lambda>k. file_bytes (c k)) (sort ks)), True)"
    unfolding s by auto
qed

theorem assembly_in_index_order_witness:
  "readJSON ex_created (manifestPath ex_dirname ''5-7'') =
     Some \<lparr>fileName = JStr ''report.pdf'', totalChunks = Some 2, uploadedChunks = []\<rparr> \<and>
   set [2, 1] = {1..2 :: int} \<and> safe_integer 2 \<and>
   CHR ''/'' \<notin> set ''5-7'' \<and> CHR ''/'' \<notin> set ''report.pdf'' \<and>
   \<not> has_nul (destination ex_dirname 9 ''report.pdf'') \<and>
   (\<exists>fs3. run_assembly ex_dirname
            ((register_all ex_dirname ''5-7'' ex_payload (\<lambda>k. 6) (\<lambda>k. [1]) [2, 1] ex_created)
               (manifestPath ex_dirname ''5-7'' := None))
            \<lparr>finalDest = destination ex_dirname 9 ''report.pdf'', jobUploadId = ''5-7'', jobTotal = 2\<rparr>
          = Inr fs3 \<and>
          fs3 (destination ex_dirname 9 ''report.pdf'') = Some (Blob ''ABCD'')) \<and>
   distinct [3, 1, 2 :: int] \<and> \<not> sublist ''.part'' ''a.txt'' \<and>
   sort_parts (map (part_name ''a.txt'') [3, 1, 2]) = map (part_name ''a.txt'') [1, 2, 3] \<and>
   (\<exists>disk'. write_parts (TMP_DIR ex_dirname) (sort_parts (map (part_name ''a.txt'') [3, 1, 2])) (ex_parts, []) =
              (disk', ''ABCDEF'', True))"
proof -
  let ?m = "\<lparr>fileName = JStr ''report.pdf'', totalChunks = Some 2, uploadedChunks = []\<rparr>"
  have m: "readJSON ex_created (manifestPath ex_dirname ''5-7'') = Some ?m" by code_simp
  have o: "set [2, 1] = {1..2 :: int}" by auto
  have sf: "safe_integer 2" by (simp add: safe_integer_def)
  have sl: "CHR ''/'' \<notin> set ''5-7'' \<and> CHR ''/'' \<notin> set ''report.pdf''" by simp
  have nn: "\<not> has_nul (destination ex_dirname 9 ''report.pdf'')" by code_simp
  have cc: "concat (map (\<lambda>k. file_bytes (ex_payload k)) [1..2]) = ''ABCD''" by code_simp
  have dk: "distinct [3, 1, 2 :: int]" by simp
  have sk: "\<forall>k\<in>set [3, 1, 2 :: int]. safe_integer k" by (simp add: safe_integer_def)
  have np: "\<not> sublist ''.part'' ''a.txt''" by (simp add: sublist_Cons_right)
  have nf: "CHR ''/'' \<notin> set ''a.txt''" by simp
  have p1: "map_of ex_parts (TMP_DIR ex_dirname @ [part_name ''a.txt'' 1]) = Some (ex_block 1)" by code_simp
  have p2: "map_of ex_parts (TMP_DIR ex_dirname @ [part_name ''a.txt'' 2]) = Some (ex_block 2)" by code_simp
  have p3: "map_of ex_parts (TMP_DIR ex_dirname @ [part_name ''a.txt'' 3]) = Some (ex_block 3)" by code_simp
  have pk: "\<forall>k\<in>set [3, 1, 2 :: int]. map_of ex_parts (TMP_DIR ex_dirname @ [part_name ''a.txt'' k]) = Some (ex_block k)"
    using p1 p2 p3 by simp
  have so: "sort [3, 1, 2 :: int] = [1, 2, 3]" by simp
  have ce: "concat (map (\<lambda>k. file_bytes (ex_block k)) [1, 2, 3]) = ''ABCDEF''" by code_simp
  note T = assembly_in_index_order [where fs = ex_created and d = ex_dirname and uid = "''5-7''" and m = ?m
      and name = "''report.pdf''" and n = 2 and order = "[2, 1]" and now = 9
      and b = ex_payload and tm = "\<lambda>k. 6" and rs = "\<lambda>k. [1]"
      and ks = "[3, 1, 2]" and f = "''a.txt''" and disk = ex_parts and c = ex_block]
  from T m o sf sl nn
  have A: "\<exists>fs3. run_assembly ex_dirname
            ((register_all ex_dirname ''5-7'' ex_payload (\<lambda>k. 6) (\<lambda>k. [1]) [2, 1] ex_created)
               (manifestPath ex_dirname ''5-7'' := None))
            \<lparr>finalDest = destination ex_dirname 9 ''report.pdf'', jobUploadId = ''5-7'', jobTotal = 2\<rparr>
          = Inr fs3 \<and>
          fs3 (destination ex_dirname 9 ''report.pdf'') =
             Some (Blob (concat (map (\<lambda>k. file_bytes (ex_payload k)) [1..2])))"
    by simp
  from T dk sk np nf pk
  have B: "sort_parts (map (part_name ''a.txt'') [3, 1, 2]) = map (part_name ''a.txt'') (sort [3, 1, 2]) \<and>
         (\<exists>disk'. write_parts (TMP_DIR ex_dirname) (sort_parts (map (part_name ''a.txt'') [3, 1, 2])) (ex_parts, []) =
                    (disk', concat (map (\<lambda>k. file_bytes (ex_block k)) (sort [3, 1, 2])), True))"
    by blast
  from A have A': "\<exists>fs3. run_assembly ex_dirname
            ((register_all ex_dirname ''5-7'' ex_payload (\<lambda>k. 6) (\<lambda>k. [1]) [2, 1] ex_created)
               (manifestPath ex_dirname ''5-7'' := None))
            \<lparr>finalDest = destination ex_dirname 9 ''report.pdf'', jobUploadId = ''5-7'', jobTotal = 2\<rparr>
          = Inr fs3 \<and>
          fs3 (destination ex_dirname 9 ''report.pdf'') = Some (Blob ''ABCD'')"
    unfolding cc .
  from B have B': "sort_parts (map (part_name ''a.txt'') [3, 1, 2]) = map (part_name ''a.txt'') [1, 2, 3] \<and>
         (\<exists>disk'. write_parts (TMP_DIR ex_dirname) (sort_parts (map (part_name ''a.txt'') [3, 1, 2])) (ex_parts, []) =
                    (disk', ''ABCDEF'', True))"
    unfolding so ce .
  from m o sf sl nn A' dk np B' show ?thesis by blast
qed

text \<open>
  Claim C1 fails as stated. The session below expects one chunk, which is
  registered with the payload \<open>AB\<close>, and the completion request is answered with
  success. But its \<open>fileName\<close> makes the destination the file of that chunk: the
  write stream truncates the file, so the payload is lost, and the assembly unlinks
  it when the chunk has been read. No file is left at the destination, let alone
  one that holds \<open>AB\<close>.
\<close>

theorem assembly_destroys_colliding_chunk:
  "readJSON ex_colliding_created (manifestPath ex_dirname ''5-7'') =
     Some \<lparr>fileName = JStr ''x/../../tmp/5-7.part1'', totalChunks = Some 1, uploadedChunks = []\<rparr> \<and>
   upload_status ex_dirname ex_colliding_uploaded (Some ''5-7'') = StatusOk [Some 1] \<and>
   ex_colliding_uploaded (chunkPath ex_dirname ''5-7'' ''1'') = Some (Blob ''AB'') \<and>
   fst (snd (upload_complete ex_dirname 9 ex_colliding_uploaded (JStr ''5-7''))) =
     CompleteOk ''/uploads/others/9-x/../../tmp/5-7.part1'' \<and>
   snd (snd (upload_complete ex_dirname 9 ex_colliding_uploaded (JStr ''5-7''))) = Some ex_colliding_job \<and>
   finalDest ex_colliding_job = chunkPath ex_dirname ''5-7'' ''1'' \<and>
   (case run_assembly ex_dirname (fst (upload_complete ex_dirname 9 ex_colliding_uploaded (JStr ''5-7'')))
           ex_colliding_job of
      Inl e \<Rightarrow> False
    | Inr fs3 \<Rightarrow> fs3 (finalDest ex_colliding_job) = None \<and>
                 fs3 (finalDest ex_colliding_job) \<noteq> Some (Blob ''AB''))"
  by code_simp

section \<open>Two chunk requests in flight\<close>






end
